theory Spec2Isabelle
  imports Main "HOL-Library.Word" "HOL-Library.Log_Nat"
begin

unbundle bit_operations_syntax

section \<open>JavaScript numbers and operators\<close>

text \<open>
  The sources are TypeScript; every \<^verbatim>\<open>number\<close> is an IEEE double. All numbers
  that occur here are integers, so a number is modelled as an \<open>int\<close>, and the one
  place where a double is not an integer ring is written out: the result of \<^verbatim>\<open>+\<close>
  and \<^verbatim>\<open>*\<close> is rounded to the nearest double (ties to even), which changes nothing
  up to magnitude \<open>2 ^ 53\<close>. The bitwise operators first convert their operands
  with ToInt32 or ToUint32, that is, they read the low 32 bits.
\<close>

type_synonym number = int

definition ulp :: "int \<Rightarrow> int" where
  "ulp x = 2 ^ nat (bitlen \<bar>x\<bar> - 53)"

definition js_round :: "int \<Rightarrow> number" where
  "js_round x =
     (if \<bar>x\<bar> \<le> 2 ^ 53 then x
      else let u = ulp x; q = \<bar>x\<bar> div u; r = \<bar>x\<bar> mod u;
               q' = (if 2 * r > u \<or> (2 * r = u \<and> odd q) then q + 1 else q)
           in sgn x * (q' * u))"

definition js_add :: "number \<Rightarrow> number \<Rightarrow> number" where
  "js_add a b = js_round (a + b)"

definition js_mul :: "number \<Rightarrow> number \<Rightarrow> number" where
  "js_mul a b = js_round (a * b)"

definition w32 :: "number \<Rightarrow> 32 word" where
  "w32 x = word_of_int x"

definition ToInt32 :: "number \<Rightarrow> number" where
  "ToInt32 x = sint (w32 x)"

definition ToUint32 :: "number \<Rightarrow> number" where
  "ToUint32 x = uint (w32 x)"

text \<open>\<^verbatim>\<open>a & b\<close>, \<^verbatim>\<open>a | b\<close>, \<^verbatim>\<open>a ^ b\<close>: signed 32-bit results.\<close>

definition js_and :: "number \<Rightarrow> number \<Rightarrow> number" where
  "js_and a b = sint (w32 a AND w32 b)"

definition js_or :: "number \<Rightarrow> number \<Rightarrow> number" where
  "js_or a b = sint (w32 a OR w32 b)"

definition js_xor :: "number \<Rightarrow> number \<Rightarrow> number" where
  "js_xor a b = sint (w32 a XOR w32 b)"

text \<open>\<^verbatim>\<open>a << n\<close> (signed result) and \<^verbatim>\<open>a >>> n\<close> (unsigned result); the shift
  count is taken modulo 32.\<close>

definition js_shl :: "number \<Rightarrow> nat \<Rightarrow> number" where
  "js_shl a n = sint (push_bit (n mod 32) (w32 a))"

definition js_shr :: "number \<Rightarrow> nat \<Rightarrow> number" where
  "js_shr a n = uint (drop_bit (n mod 32) (w32 a))"

section \<open>Byte input (encoding.ts)\<close>

type_synonym bytes = "8 word list"

datatype HashInput = Str string | Bytes bytes

text \<open>\<^verbatim>\<open>toBytes\<close>: a \<^verbatim>\<open>Uint8Array\<close> is returned as it is; a string is encoded by
  the platform's \<^verbatim>\<open>TextEncoder\<close> (UTF-8). A \<open>string\<close> here is the list of its
  UTF-8 bytes, one \<open>char\<close> per byte.\<close>

fun toBytes :: "HashInput \<Rightarrow> bytes" where
  "toBytes (Bytes b) = b"
| "toBytes (Str s) = map of_char s"

text \<open>\<^verbatim>\<open>bytes[i]\<close>: the element as a number; out of range JavaScript gives
  \<^verbatim>\<open>undefined\<close>, which every use below converts to 0.\<close>

definition byte_at :: "bytes \<Rightarrow> int \<Rightarrow> number" where
  "byte_at b i = (if 0 \<le> i \<and> i < int (length b) then uint (b ! nat i) else 0)"

section \<open>32-bit primitives (hash32.ts and hash128.ts, same text in both)\<close>

definition multiply :: "number \<Rightarrow> number \<Rightarrow> number" where
  "multiply a b =
     js_or (js_add (js_mul (js_and a 0xffff) b)
                   (js_shl (js_and (js_mul (js_shr a 16) b) 0xffff) 16)) 0"

definition rotl :: "number \<Rightarrow> nat \<Rightarrow> number" where
  "rotl v shift = js_or (js_shl v shift) (js_shr v (32 - shift))"

definition fmix :: "number \<Rightarrow> number" where
  "fmix h0 =
     (let h = js_xor h0 (js_shr h0 16);
          h = multiply h 0x85ebca6b;
          h = js_xor h (js_shr h 13);
          h = multiply h 0xc2b2ae35;
          h = js_xor h (js_shr h 16)
      in h)"

text \<open>The little-endian word read that every block loop spells out:
  \<^verbatim>\<open>bytes[o] | (bytes[o + 1] << 8) | (bytes[o + 2] << 16) | (bytes[o + 3] << 24)\<close>.\<close>

definition read32 :: "bytes \<Rightarrow> int \<Rightarrow> number" where
  "read32 b off =
     js_or (js_or (js_or (byte_at b off) (js_shl (byte_at b (off + 1)) 8))
                  (js_shl (byte_at b (off + 2)) 16))
           (js_shl (byte_at b (off + 3)) 24)"

section \<open>hash32.ts\<close>

definition C1_32 :: number where "C1_32 = 0xcc9e2d51"
definition C2_32 :: number where "C2_32 = 0x1b873593"

definition block32 :: "bytes \<Rightarrow> nat \<Rightarrow> number \<Rightarrow> number" where
  "block32 b i h1 =
     (let offset = int i * 4;
          k1 = read32 b offset;
          k1 = multiply k1 C1_32;
          k1 = rotl k1 15;
          k1 = multiply k1 C2_32;
          h1 = js_xor h1 k1;
          h1 = rotl h1 13;
          h1 = js_add (multiply h1 5) 0xe6546b64
      in h1)"

text \<open>The state after the first \<open>n\<close> iterations of
  \<^verbatim>\<open>for (let i = 0; i < blocks; i++)\<close>.\<close>

primrec loop32 :: "bytes \<Rightarrow> nat \<Rightarrow> number \<Rightarrow> number" where
  "loop32 b 0 h1 = h1"
| "loop32 b (Suc n) h1 = block32 b n (loop32 b n h1)"

text \<open>The \<^verbatim>\<open>switch (len & 3)\<close> with its fallthrough: the statements of case
  \<open>c\<close> run when \<open>c \<le> len & 3\<close>.\<close>

definition tail32 :: "bytes \<Rightarrow> int \<Rightarrow> number \<Rightarrow> number \<Rightarrow> number" where
  "tail32 b tailOffset r h1 =
     (let k1 = 0;
          k1 = (if 3 \<le> r then js_xor k1 (js_shl (byte_at b (tailOffset + 2)) 16) else k1);
          k1 = (if 2 \<le> r then js_xor k1 (js_shl (byte_at b (tailOffset + 1)) 8) else k1)
      in if 1 \<le> r then
           (let k1 = js_xor k1 (byte_at b tailOffset);
                k1 = multiply k1 C1_32;
                k1 = rotl k1 15;
                k1 = multiply k1 C2_32
            in js_xor h1 k1)
         else h1)"

definition compute32 :: "bytes \<Rightarrow> number \<Rightarrow> number" where
  "compute32 b seed =
     (let len = int (length b);
          blocks = js_shr len 2;
          h1 = loop32 b (nat blocks) seed;
          tailOffset = blocks * 4;
          h1 = tail32 b tailOffset (js_and len 3) h1;
          h1 = js_xor h1 len;
          h1 = fmix h1
      in js_shr h1 0)"

text \<open>\<^verbatim>\<open>hash32(input, seed = 0)\<close>: an omitted seed is 0.\<close>

definition hash32 :: "HashInput \<Rightarrow> number option \<Rightarrow> number" where
  "hash32 input seed = compute32 (toBytes input) (case seed of None \<Rightarrow> 0 | Some s \<Rightarrow> s)"

section \<open>Hex and BigInt output\<close>

text \<open>\<^verbatim>\<open>x.toString(16)\<close> for an integer \<open>x\<close>: lowercase digits, no leading zeros.\<close>

definition hex_digit :: "int \<Rightarrow> char" where
  "hex_digit d = ''0123456789abcdef'' ! nat d"

function hex_digits :: "int \<Rightarrow> string" where
  "hex_digits x = (if x < 16 then [hex_digit x] else hex_digits (x div 16) @ [hex_digit (x mod 16)])"
  by pat_completeness auto
termination
  by (relation "measure nat") auto

definition toString16 :: "number \<Rightarrow> string" where
  "toString16 x = (if x < 0 then CHR ''-'' # hex_digits (- x) else hex_digits x)"

text \<open>\<^verbatim>\<open>s.slice(-8)\<close>: the last 8 characters, or all of a shorter string.\<close>

definition slice_last8 :: "string \<Rightarrow> string" where
  "slice_last8 s = drop (length s - 8) s"

text \<open>\<^verbatim>\<open>('00000000' + (h >>> 0).toString(16)).slice(-8)\<close>\<close>

definition hex8 :: "number \<Rightarrow> string" where
  "hex8 h = slice_last8 (''00000000'' @ toString16 (js_shr h 0))"

datatype js_error = SyntaxError | RangeError

definition hex_val :: "char \<Rightarrow> int option" where
  "hex_val c =
     (let n = (of_char c :: int)
      in if 48 \<le> n \<and> n \<le> 57 then Some (n - 48)
         else if 97 \<le> n \<and> n \<le> 102 then Some (n - 87)
         else if 65 \<le> n \<and> n \<le> 70 then Some (n - 55)
         else None)"

fun parse_hex :: "int \<Rightarrow> string \<Rightarrow> int option" where
  "parse_hex acc [] = Some acc"
| "parse_hex acc (c # cs) =
     (case hex_val c of None \<Rightarrow> None | Some d \<Rightarrow> parse_hex (acc * 16 + d) cs)"

text \<open>\<^verbatim>\<open>hexToBigInt(hex) = BigInt('0x' + hex)\<close>: the platform's \<^verbatim>\<open>BigInt\<close> parses the
  digits after the prefix in base 16 and throws a SyntaxError when there is none or
  when a character is no hex digit.\<close>

definition hexToBigInt :: "string \<Rightarrow> js_error + int" where
  "hexToBigInt hex =
     (if hex = [] then Inl SyntaxError
      else case parse_hex 0 hex of None \<Rightarrow> Inl SyntaxError | Some v \<Rightarrow> Inr v)"

datatype HashOutput = hex | bigint

text \<open>\<^verbatim>\<open>interface Hash128Options { seed?: number; output?: HashOutput }\<close>; the field
  names carry a prefix here because \<open>seed\<close> names a parameter everywhere else.\<close>

record Hash128Options =
  opt_seed :: "number option"
  opt_output :: "HashOutput option"

text \<open>The result type \<^verbatim>\<open>string | bigint\<close>.\<close>

datatype digest128 = HexString string | BigIntValue int

section \<open>hash128.ts\<close>

definition C1 :: number where "C1 = 0x239b961b"
definition C2 :: number where "C2 = 0xab0e9789"
definition C3 :: number where "C3 = 0x38b34ae5"
definition C4 :: number where "C4 = 0xa1e38b93"

type_synonym lanes = "number \<times> number \<times> number \<times> number"

definition block128 :: "bytes \<Rightarrow> nat \<Rightarrow> lanes \<Rightarrow> lanes" where
  "block128 b i hs =
     (let h1 = fst hs; h2 = fst (snd hs); h3 = fst (snd (snd hs)); h4 = snd (snd (snd hs));
          offset = int i * 16;
          k1 = read32 b offset;
          k2 = read32 b (offset + 4);
          k3 = read32 b (offset + 8);
          k4 = read32 b (offset + 12);

          k1 = multiply k1 C1;
          k1 = rotl k1 15;
          k1 = multiply k1 C2;
          h1 = js_xor h1 k1;

          h1 = rotl h1 19;
          h1 = js_add h1 h2;
          h1 = js_add (multiply h1 5) 0x561ccd1b;

          k2 = multiply k2 C2;
          k2 = rotl k2 16;
          k2 = multiply k2 C3;
          h2 = js_xor h2 k2;

          h2 = rotl h2 17;
          h2 = js_add h2 h3;
          h2 = js_add (multiply h2 5) 0x0bcaa747;

          k3 = multiply k3 C3;
          k3 = rotl k3 17;
          k3 = multiply k3 C4;
          h3 = js_xor h3 k3;

          h3 = rotl h3 15;
          h3 = js_add h3 h4;
          h3 = js_add (multiply h3 5) 0x96cd1c35;

          k4 = multiply k4 C4;
          k4 = rotl k4 18;
          k4 = multiply k4 C1;
          h4 = js_xor h4 k4;

          h4 = rotl h4 13;
          h4 = js_add h4 h1;
          h4 = js_add (multiply h4 5) 0x32ac3b17
      in (h1, h2, h3, h4))"

primrec loop128 :: "bytes \<Rightarrow> nat \<Rightarrow> lanes \<Rightarrow> lanes" where
  "loop128 b 0 hs = hs"
| "loop128 b (Suc n) hs = block128 b n (loop128 b n hs)"

text \<open>The \<^verbatim>\<open>switch (len & 15)\<close>: no case has a \<^verbatim>\<open>break\<close>, so the statements of
  case \<open>c\<close> run when \<open>c \<le> len & 15\<close>, from case 15 down to case 1.\<close>

definition tail128 :: "bytes \<Rightarrow> int \<Rightarrow> number \<Rightarrow> lanes \<Rightarrow> lanes" where
  "tail128 b tailOffset r hs =
     (let h1 = fst hs; h2 = fst (snd hs); h3 = fst (snd (snd hs)); h4 = snd (snd (snd hs));
          k1 = 0; k2 = 0; k3 = 0; k4 = 0;
          k4 = (if 15 \<le> r then js_xor k4 (js_shl (byte_at b (tailOffset + 14)) 16) else k4);
          k4 = (if 14 \<le> r then js_xor k4 (js_shl (byte_at b (tailOffset + 13)) 8) else k4);
          h4 = (if 13 \<le> r then
                  (let k4 = js_xor k4 (byte_at b (tailOffset + 12));
                       k4 = multiply k4 C4;
                       k4 = rotl k4 18;
                       k4 = multiply k4 C1
                   in js_xor h4 k4)
                else h4);
          k3 = (if 12 \<le> r then js_xor k3 (js_shl (byte_at b (tailOffset + 11)) 24) else k3);
          k3 = (if 11 \<le> r then js_xor k3 (js_shl (byte_at b (tailOffset + 10)) 16) else k3);
          k3 = (if 10 \<le> r then js_xor k3 (js_shl (byte_at b (tailOffset + 9)) 8) else k3);
          h3 = (if 9 \<le> r then
                  (let k3 = js_xor k3 (byte_at b (tailOffset + 8));
                       k3 = multiply k3 C3;
                       k3 = rotl k3 17;
                       k3 = multiply k3 C4
                   in js_xor h3 k3)
                else h3);
          k2 = (if 8 \<le> r then js_xor k2 (js_shl (byte_at b (tailOffset + 7)) 24) else k2);
          k2 = (if 7 \<le> r then js_xor k2 (js_shl (byte_at b (tailOffset + 6)) 16) else k2);
          k2 = (if 6 \<le> r then js_xor k2 (js_shl (byte_at b (tailOffset + 5)) 8) else k2);
          h2 = (if 5 \<le> r then
                  (let k2 = js_xor k2 (byte_at b (tailOffset + 4));
                       k2 = multiply k2 C2;
                       k2 = rotl k2 16;
                       k2 = multiply k2 C3
                   in js_xor h2 k2)
                else h2);
          k1 = (if 4 \<le> r then js_xor k1 (js_shl (byte_at b (tailOffset + 3)) 24) else k1);
          k1 = (if 3 \<le> r then js_xor k1 (js_shl (byte_at b (tailOffset + 2)) 16) else k1);
          k1 = (if 2 \<le> r then js_xor k1 (js_shl (byte_at b (tailOffset + 1)) 8) else k1);
          h1 = (if 1 \<le> r then
                  (let k1 = js_xor k1 (byte_at b tailOffset);
                       k1 = multiply k1 C1;
                       k1 = rotl k1 15;
                       k1 = multiply k1 C2
                   in js_xor h1 k1)
                else h1)
      in (h1, h2, h3, h4))"

text \<open>The six additions \<^verbatim>\<open>h1 += h2; h1 += h3; h1 += h4; h2 += h1; h3 += h1; h4 += h1\<close>
  that the finalization runs twice.\<close>

fun combine128 :: "lanes \<Rightarrow> lanes" where
  "combine128 (h1, h2, h3, h4) =
     (let h1 = js_add h1 h2;
          h1 = js_add h1 h3;
          h1 = js_add h1 h4;
          h2 = js_add h2 h1;
          h3 = js_add h3 h1;
          h4 = js_add h4 h1
      in (h1, h2, h3, h4))"

text \<open>The finalization in three steps: the length is xor-ed into every lane, the
  lanes are combined, every lane goes through \<^verbatim>\<open>fmix\<close>, and the lanes are combined
  again.\<close>

fun xor_len128 :: "number \<Rightarrow> lanes \<Rightarrow> lanes" where
  "xor_len128 len (h1, h2, h3, h4) =
     (let h1 = js_xor h1 len;
          h2 = js_xor h2 len;
          h3 = js_xor h3 len;
          h4 = js_xor h4 len
      in (h1, h2, h3, h4))"

fun fmix128 :: "lanes \<Rightarrow> lanes" where
  "fmix128 (h1, h2, h3, h4) =
     (let h1 = fmix h1;
          h2 = fmix h2;
          h3 = fmix h3;
          h4 = fmix h4
      in (h1, h2, h3, h4))"

definition final128 :: "number \<Rightarrow> lanes \<Rightarrow> lanes" where
  "final128 len hs = combine128 (fmix128 (combine128 (xor_len128 len hs)))"

fun hex128 :: "lanes \<Rightarrow> string" where
  "hex128 (h1, h2, h3, h4) = hex8 h1 @ hex8 h2 @ hex8 h3 @ hex8 h4"

text \<open>The four lanes at the end of \<^verbatim>\<open>compute\<close>, before they are printed.\<close>

definition lanes128 :: "bytes \<Rightarrow> number \<Rightarrow> lanes" where
  "lanes128 b seed =
     (let len = int (length b);
          blocks = js_shr len 4;
          hs = loop128 b (nat blocks) (seed, seed, seed, seed);
          tailOffset = blocks * 16;
          hs = tail128 b tailOffset (js_and len 15) hs
      in final128 len hs)"

definition compute128 :: "bytes \<Rightarrow> number \<Rightarrow> string" where
  "compute128 b seed = hex128 (lanes128 b seed)"

text \<open>\<^verbatim>\<open>options?.seed ?? 0\<close> and \<^verbatim>\<open>options?.output\<close>.\<close>

definition seed_of :: "Hash128Options option \<Rightarrow> number" where
  "seed_of options =
     (case options of None \<Rightarrow> 0
      | Some opts \<Rightarrow> (case opt_seed opts of None \<Rightarrow> 0 | Some s \<Rightarrow> s))"

definition output_of :: "Hash128Options option \<Rightarrow> HashOutput option" where
  "output_of options = (case options of None \<Rightarrow> None | Some opts \<Rightarrow> opt_output opts)"

text \<open>The end of \<^verbatim>\<open>hash128\<close>, \<^verbatim>\<open>hash128x64\<close> and of both \<^verbatim>\<open>digest\<close> methods:
  \<^verbatim>\<open>if (output === 'bigint') return hexToBigInt(hex); return hex;\<close>\<close>

definition format128 :: "HashOutput option \<Rightarrow> string \<Rightarrow> js_error + digest128" where
  "format128 out h =
     (if out = Some bigint
      then (case hexToBigInt h of Inl e \<Rightarrow> Inl e | Inr v \<Rightarrow> Inr (BigIntValue v))
      else Inr (HexString h))"

definition hash128 :: "HashInput \<Rightarrow> Hash128Options option \<Rightarrow> js_error + digest128" where
  "hash128 input options =
     (let seed = seed_of options;
          h = compute128 (toBytes input) seed
      in format128 (output_of options) h)"

section \<open>hash128x64.ts: 64-bit values as pairs of 32-bit numbers\<close>

text \<open>A 64-bit value is the array \<^verbatim>\<open>[hi, lo]\<close>: \<open>fst\<close> is \<^verbatim>\<open>a[0]\<close> and \<open>snd\<close> is
  \<^verbatim>\<open>a[1]\<close>.\<close>

type_synonym u64 = "number \<times> number"

definition C1_x64 :: u64 where "C1_x64 = (0x87c37b91, 0x114253d5)"
definition C2_x64 :: u64 where "C2_x64 = (0x4cf5ad43, 0x2745937f)"

definition add64 :: "u64 \<Rightarrow> u64 \<Rightarrow> u64" where
  "add64 a b =
     (let a0 = js_shr (fst a) 16; a1 = js_and (fst a) 0xffff;
          a2 = js_shr (snd a) 16; a3 = js_and (snd a) 0xffff;
          b0 = js_shr (fst b) 16; b1 = js_and (fst b) 0xffff;
          b2 = js_shr (snd b) 16; b3 = js_and (snd b) 0xffff;
          c0 = 0; c1 = 0; c2 = 0; c3 = 0;

          c3 = js_add c3 (js_add a3 b3);
          c2 = js_add c2 (js_shr c3 16);
          c3 = js_and c3 0xffff;

          c2 = js_add c2 (js_add a2 b2);
          c1 = js_add c1 (js_shr c2 16);
          c2 = js_and c2 0xffff;

          c1 = js_add c1 (js_add a1 b1);
          c0 = js_add c0 (js_shr c1 16);
          c1 = js_and c1 0xffff;

          c0 = js_add c0 (js_add a0 b0);
          c0 = js_and c0 0xffff
      in (js_or (js_shl c0 16) c1, js_or (js_shl c2 16) c3))"

definition multiply64 :: "u64 \<Rightarrow> u64 \<Rightarrow> u64" where
  "multiply64 a b =
     (let a0 = js_shr (fst a) 16; a1 = js_and (fst a) 0xffff;
          a2 = js_shr (snd a) 16; a3 = js_and (snd a) 0xffff;
          b0 = js_shr (fst b) 16; b1 = js_and (fst b) 0xffff;
          b2 = js_shr (snd b) 16; b3 = js_and (snd b) 0xffff;
          c0 = 0; c1 = 0; c2 = 0; c3 = 0;

          c3 = js_add c3 (js_mul a3 b3);
          c2 = js_add c2 (js_shr c3 16);
          c3 = js_and c3 0xffff;

          c2 = js_add c2 (js_mul a2 b3);
          c1 = js_add c1 (js_shr c2 16);
          c2 = js_and c2 0xffff;

          c2 = js_add c2 (js_mul a3 b2);
          c1 = js_add c1 (js_shr c2 16);
          c2 = js_and c2 0xffff;

          c1 = js_add c1 (js_mul a1 b3);
          c0 = js_add c0 (js_shr c1 16);
          c1 = js_and c1 0xffff;

          c1 = js_add c1 (js_mul a2 b2);
          c0 = js_add c0 (js_shr c1 16);
          c1 = js_and c1 0xffff;

          c1 = js_add c1 (js_mul a3 b1);
          c0 = js_add c0 (js_shr c1 16);
          c1 = js_and c1 0xffff;

          c0 = js_add c0 (js_add (js_add (js_add (js_mul a0 b3) (js_mul a1 b2)) (js_mul a2 b1))
                                 (js_mul a3 b0));
          c0 = js_and c0 0xffff
      in (js_or (js_shl c0 16) c1, js_or (js_shl c2 16) c3))"

text \<open>The rotate amount is a non-negative integer at every call, so \<^verbatim>\<open>n %= 64\<close> is
  \<open>n mod 64\<close>.\<close>

definition rotl64 :: "u64 \<Rightarrow> nat \<Rightarrow> u64" where
  "rotl64 m n0 =
     (let n = n0 mod 64
      in if n = 32 then (snd m, fst m)
         else if n < 32 then
           (js_or (js_shl (fst m) n) (js_shr (snd m) (32 - n)),
            js_or (js_shl (snd m) n) (js_shr (fst m) (32 - n)))
         else
           (let n = n - 32
            in (js_or (js_shl (snd m) n) (js_shr (fst m) (32 - n)),
                js_or (js_shl (fst m) n) (js_shr (snd m) (32 - n)))))"

definition lshift64 :: "u64 \<Rightarrow> nat \<Rightarrow> u64" where
  "lshift64 m n0 =
     (let n = n0 mod 64
      in if n = 0 then m
         else if n < 32 then
           (js_or (js_shl (fst m) n) (js_shr (snd m) (32 - n)), js_shl (snd m) n)
         else (js_shl (snd m) (n - 32), 0))"

definition xor64 :: "u64 \<Rightarrow> u64 \<Rightarrow> u64" where
  "xor64 a b = (js_xor (fst a) (fst b), js_xor (snd a) (snd b))"

definition fmix64 :: "u64 \<Rightarrow> u64" where
  "fmix64 h0 =
     (let h = xor64 h0 (0, js_shr (fst h0) 1);
          h = multiply64 h (0xff51afd7, 0xed558ccd);
          h = xor64 h (0, js_shr (fst h) 1);
          h = multiply64 h (0xc4ceb9fe, 0x1a85ec53);
          h = xor64 h (0, js_shr (fst h) 1)
      in h)"

definition block128x64 :: "bytes \<Rightarrow> nat \<Rightarrow> u64 \<times> u64 \<Rightarrow> u64 \<times> u64" where
  "block128x64 b i hs =
     (let h1 = fst hs; h2 = snd hs;
          offset = int i * 16;
          k1 = (read32 b (offset + 4), read32 b offset);
          k2 = (read32 b (offset + 12), read32 b (offset + 8));

          k1 = multiply64 k1 C1_x64;
          k1 = rotl64 k1 31;
          k1 = multiply64 k1 C2_x64;
          h1 = xor64 h1 k1;

          h1 = rotl64 h1 27;
          h1 = add64 h1 h2;
          h1 = add64 (multiply64 h1 (0, 5)) (0, 0x52dce729);

          k2 = multiply64 k2 C2_x64;
          k2 = rotl64 k2 33;
          k2 = multiply64 k2 C1_x64;
          h2 = xor64 h2 k2;

          h2 = rotl64 h2 31;
          h2 = add64 h2 h1;
          h2 = add64 (multiply64 h2 (0, 5)) (0, 0x38495ab5)
      in (h1, h2))"

primrec loop128x64 :: "bytes \<Rightarrow> nat \<Rightarrow> u64 \<times> u64 \<Rightarrow> u64 \<times> u64" where
  "loop128x64 b 0 hs = hs"
| "loop128x64 b (Suc n) hs = block128x64 b n (loop128x64 b n hs)"

definition tail128x64 :: "bytes \<Rightarrow> int \<Rightarrow> number \<Rightarrow> u64 \<times> u64 \<Rightarrow> u64 \<times> u64" where
  "tail128x64 b tailOffset r hs =
     (let h1 = fst hs; h2 = snd hs;
          k1 = (0, 0); k2 = (0, 0);
          k2 = (if 15 \<le> r then xor64 k2 (lshift64 (0, byte_at b (tailOffset + 14)) 48) else k2);
          k2 = (if 14 \<le> r then xor64 k2 (lshift64 (0, byte_at b (tailOffset + 13)) 40) else k2);
          k2 = (if 13 \<le> r then xor64 k2 (lshift64 (0, byte_at b (tailOffset + 12)) 32) else k2);
          k2 = (if 12 \<le> r then xor64 k2 (lshift64 (0, byte_at b (tailOffset + 11)) 24) else k2);
          k2 = (if 11 \<le> r then xor64 k2 (lshift64 (0, byte_at b (tailOffset + 10)) 16) else k2);
          k2 = (if 10 \<le> r then xor64 k2 (lshift64 (0, byte_at b (tailOffset + 9)) 8) else k2);
          h2 = (if 9 \<le> r then
                  (let k2 = xor64 k2 (0, byte_at b (tailOffset + 8));
                       k2 = multiply64 k2 C2_x64;
                       k2 = rotl64 k2 33;
                       k2 = multiply64 k2 C1_x64
                   in xor64 h2 k2)
                else h2);
          k1 = (if 8 \<le> r then xor64 k1 (lshift64 (0, byte_at b (tailOffset + 7)) 56) else k1);
          k1 = (if 7 \<le> r then xor64 k1 (lshift64 (0, byte_at b (tailOffset + 6)) 48) else k1);
          k1 = (if 6 \<le> r then xor64 k1 (lshift64 (0, byte_at b (tailOffset + 5)) 40) else k1);
          k1 = (if 5 \<le> r then xor64 k1 (lshift64 (0, byte_at b (tailOffset + 4)) 32) else k1);
          k1 = (if 4 \<le> r then xor64 k1 (lshift64 (0, byte_at b (tailOffset + 3)) 24) else k1);
          k1 = (if 3 \<le> r then xor64 k1 (lshift64 (0, byte_at b (tailOffset + 2)) 16) else k1);
          k1 = (if 2 \<le> r then xor64 k1 (lshift64 (0, byte_at b (tailOffset + 1)) 8) else k1);
          h1 = (if 1 \<le> r then
                  (let k1 = xor64 k1 (0, byte_at b tailOffset);
                       k1 = multiply64 k1 C1_x64;
                       k1 = rotl64 k1 31;
                       k1 = multiply64 k1 C2_x64
                   in xor64 h1 k1)
                else h1)
      in (h1, h2))"

definition final128x64 :: "number \<Rightarrow> u64 \<times> u64 \<Rightarrow> u64 \<times> u64" where
  "final128x64 len hs =
     (let h1 = fst hs; h2 = snd hs;
          h1 = xor64 h1 (0, len);
          h2 = xor64 h2 (0, len);

          h1 = add64 h1 h2;
          h2 = add64 h2 h1;

          h1 = fmix64 h1;
          h2 = fmix64 h2;

          h1 = add64 h1 h2;
          h2 = add64 h2 h1
      in (h1, h2))"

fun hex128x64 :: "u64 \<times> u64 \<Rightarrow> string" where
  "hex128x64 (h1, h2) = hex8 (fst h1) @ hex8 (snd h1) @ hex8 (fst h2) @ hex8 (snd h2)"

definition lanes128x64 :: "bytes \<Rightarrow> number \<Rightarrow> u64 \<times> u64" where
  "lanes128x64 b seed =
     (let len = int (length b);
          blocks = js_shr len 4;
          hs = loop128x64 b (nat blocks) ((0, seed), (0, seed));
          tailOffset = blocks * 16;
          hs = tail128x64 b tailOffset (js_and len 15) hs
      in final128x64 len hs)"

definition compute128x64 :: "bytes \<Rightarrow> number \<Rightarrow> string" where
  "compute128x64 b seed = hex128x64 (lanes128x64 b seed)"

definition hash128x64 :: "HashInput \<Rightarrow> Hash128Options option \<Rightarrow> js_error + digest128" where
  "hash128x64 input options =
     (let seed = seed_of options;
          h = compute128x64 (toBytes input) seed
      in format128 (output_of options) h)"

section \<open>The streaming hashers\<close>

text \<open>A \<^verbatim>\<open>Uint8Array\<close> is an object. \<^verbatim>\<open>toBytes\<close> returns the caller's array itself,
  \<^verbatim>\<open>update\<close> pushes that reference, and \<^verbatim>\<open>digest\<close> reads the array again when it runs.
  So arrays live in a store that maps references to contents, \<^verbatim>\<open>update\<close> and \<^verbatim>\<open>digest\<close>
  take the store of the moment they are called in, and what the caller writes to its
  arrays between two calls is the difference between the two stores.\<close>

type_synonym ref = nat

type_synonym store = "ref \<Rightarrow> bytes"

text \<open>A \<^verbatim>\<open>HashInput\<close> as a caller hands it over: a string, or the reference to a
  \<^verbatim>\<open>Uint8Array\<close>. \<open>deref\<close> reads it in a store.\<close>

datatype HashArg = StrArg string | ArrayArg ref

fun deref :: "store \<Rightarrow> HashArg \<Rightarrow> HashInput" where
  "deref \<sigma> (StrArg s) = Str s"
| "deref \<sigma> (ArrayArg r) = Bytes (\<sigma> r)"

text \<open>What \<^verbatim>\<open>toBytes\<close> returns for it: the caller's array, or the new array of
  \<^verbatim>\<open>encoder.encode\<close>, which only the stream holds and which is kept here by its
  contents.\<close>

datatype chunk = Shared ref | Fresh bytes

fun toBytes_ref :: "HashArg \<Rightarrow> chunk" where
  "toBytes_ref (ArrayArg r) = Shared r"
| "toBytes_ref (StrArg s) = Fresh (toBytes (Str s))"

fun contents :: "store \<Rightarrow> chunk \<Rightarrow> bytes" where
  "contents \<sigma> (Shared r) = \<sigma> r"
| "contents \<sigma> (Fresh b) = b"

text \<open>\<^verbatim>\<open>a[i] = v\<close> on a \<^verbatim>\<open>Uint8Array\<close>; an index out of range is ignored, and the
  length of the array stays.\<close>

definition write_at :: "ref \<Rightarrow> nat \<Rightarrow> 8 word \<Rightarrow> store \<Rightarrow> store" where
  "write_at r i v \<sigma> = \<sigma>(r := (\<sigma> r)[i := v])"

text \<open>The three classes hold the same private fields; the two 128-bit classes add
  \<^verbatim>\<open>outputFormat\<close>. \<^verbatim>\<open>update\<close> has the same text in all three, and the copy loop of
  \<^verbatim>\<open>digest\<close> as well.\<close>

record Hash32Stream =
  chunks :: "chunk list"
  totalLength :: nat
  this_seed :: number

record Hash128Stream = Hash32Stream +
  outputFormat :: HashOutput

type_synonym Hash128x64Stream = Hash128Stream

definition createHash32 :: "number option \<Rightarrow> Hash32Stream" where
  "createHash32 seed =
     \<lparr>chunks = [], totalLength = 0, this_seed = (case seed of None \<Rightarrow> 0 | Some s \<Rightarrow> s)\<rparr>"

definition createHash128 :: "Hash128Options option \<Rightarrow> Hash128Stream" where
  "createHash128 options =
     \<lparr>chunks = [], totalLength = 0, this_seed = seed_of options,
      outputFormat = (case output_of options of None \<Rightarrow> hex | Some f \<Rightarrow> f)\<rparr>"

definition createHash128x64 :: "Hash128Options option \<Rightarrow> Hash128x64Stream" where
  "createHash128x64 options =
     \<lparr>chunks = [], totalLength = 0, this_seed = seed_of options,
      outputFormat = (case output_of options of None \<Rightarrow> hex | Some f \<Rightarrow> f)\<rparr>"

text \<open>\<^verbatim>\<open>bytes.length\<close> is read when \<^verbatim>\<open>update\<close> runs.\<close>

definition update ::
  "store \<Rightarrow> HashArg \<Rightarrow> 'a Hash32Stream_scheme \<Rightarrow> 'a Hash32Stream_scheme" where
  "update \<sigma> input this =
     (let bytes = toBytes_ref input
      in this\<lparr>chunks := chunks this @ [bytes],
              totalLength := totalLength this + length (contents \<sigma> bytes)\<rparr>)"

text \<open>\<^verbatim>\<open>result.set(chunk, offset)\<close> throws a RangeError when the chunk does not fit.\<close>

definition set_at :: "bytes \<Rightarrow> bytes \<Rightarrow> nat \<Rightarrow> js_error + bytes" where
  "set_at result chunk offset =
     (if length result < offset + length chunk then Inl RangeError
      else Inr (take offset result @ chunk @ drop (offset + length chunk) result))"

fun copy_chunks :: "bytes list \<Rightarrow> nat \<Rightarrow> bytes \<Rightarrow> js_error + bytes" where
  "copy_chunks [] offset result = Inr result"
| "copy_chunks (chunk # cs) offset result =
     (case set_at result chunk offset of
        Inl e \<Rightarrow> Inl e
      | Inr result' \<Rightarrow> copy_chunks cs (offset + length chunk) result')"

text \<open>\<^verbatim>\<open>new Uint8Array(this.totalLength)\<close> is filled with zeros; the loop reads every
  chunk in the store of the \<^verbatim>\<open>digest\<close> call.\<close>

definition gather :: "store \<Rightarrow> 'a Hash32Stream_scheme \<Rightarrow> js_error + bytes" where
  "gather \<sigma> this =
     copy_chunks (map (contents \<sigma>) (chunks this)) 0 (replicate (totalLength this) 0)"

text \<open>Every \<^verbatim>\<open>digest\<close> returns its result together with the stream it leaves
  behind; \<^verbatim>\<open>result\<close> is the only array it writes to.\<close>

definition digest32 :: "store \<Rightarrow> Hash32Stream \<Rightarrow> (js_error + number) \<times> Hash32Stream" where
  "digest32 \<sigma> this =
     (case gather \<sigma> this of
        Inl e \<Rightarrow> (Inl e, this)
      | Inr result \<Rightarrow> (Inr (compute32 result (this_seed this)), this))"

definition digest128 ::
  "store \<Rightarrow> Hash128Stream \<Rightarrow> (js_error + digest128) \<times> Hash128Stream" where
  "digest128 \<sigma> this =
     (case gather \<sigma> this of
        Inl e \<Rightarrow> (Inl e, this)
      | Inr result \<Rightarrow>
          (let h = compute128 result (this_seed this)
           in (format128 (Some (outputFormat this)) h, this)))"

definition digest128x64 ::
  "store \<Rightarrow> Hash128x64Stream \<Rightarrow> (js_error + digest128) \<times> Hash128x64Stream" where
  "digest128x64 \<sigma> this =
     (case gather \<sigma> this of
        Inl e \<Rightarrow> (Inl e, this)
      | Inr result \<Rightarrow>
          (let h = compute128x64 result (this_seed this)
           in (format128 (Some (outputFormat this)) h, this)))"

text \<open>A sequence of \<^verbatim>\<open>update\<close> calls, each with the store it is called in.\<close>

definition updates ::
  "(store \<times> HashArg) list \<Rightarrow> 'a Hash32Stream_scheme \<Rightarrow> 'a Hash32Stream_scheme" where
  "updates calls this = fold (\<lambda>c. update (fst c) (snd c)) calls this"

text \<open>A stream is well-formed in a store when its running length is the length of
  what its chunks hold there.\<close>

definition stream_ok :: "store \<Rightarrow> 'a Hash32Stream_scheme \<Rightarrow> bool" where
  "stream_ok \<sigma> s = (totalLength s = length (concat (map (contents \<sigma>) (chunks s))))"

section \<open>Notions of the specification\<close>

text \<open>The chunks of a sequence of \<^verbatim>\<open>update\<close> calls as they were when they were passed,
  one after the other.\<close>

definition passed :: "(store \<times> HashArg) list \<Rightarrow> bytes" where
  "passed calls = concat (map (\<lambda>c. toBytes (deref (fst c) (snd c))) calls)"

text \<open>In the store \<open>\<sigma>\<close> every array of the calls holds what it held when it was
  passed: the caller has not written to it since.\<close>

definition unwritten :: "store \<Rightarrow> (store \<times> HashArg) list \<Rightarrow> bool" where
  "unwritten \<sigma> calls = list_all (\<lambda>c. deref \<sigma> (snd c) = deref (fst c) (snd c)) calls"

text \<open>The stream's arrays hold in \<open>\<sigma>'\<close> what they hold in \<open>\<sigma>\<close>: the caller has written
  to none of them in between.\<close>

definition same_contents :: "store \<Rightarrow> store \<Rightarrow> 'a Hash32Stream_scheme \<Rightarrow> bool" where
  "same_contents \<sigma> \<sigma>' s = list_all (\<lambda>c. contents \<sigma>' c = contents \<sigma> c) (chunks s)"

text \<open>The store with one array \<open>b\<close>, at reference 0.\<close>

definition one_array :: "bytes \<Rightarrow> store" where
  "one_array b = (\<lambda>r. [])(0 := b)"

text \<open>The characters of a lowercase hex string.\<close>

definition hex_chars :: "char set" where
  "hex_chars = set ''0123456789abcdef''"

text \<open>The number that a string of lowercase hex digits denotes in base 16: a digit is
  worth its position in \<^verbatim>\<open>0123456789abcdef\<close>, and the leftmost digit weighs most.\<close>

definition digit16 :: "char \<Rightarrow> int" where
  "digit16 c = int (length (takeWhile (\<lambda>d. d \<noteq> c) ''0123456789abcdef''))"

definition base16 :: "string \<Rightarrow> int" where
  "base16 s = foldl (\<lambda>acc c. acc * 16 + digit16 c) 0 s"

text \<open>The per-lane step of the x86 128-bit block mixing in the specification's words,
  for lane \<open>i\<close> (counted from 0), its block word \<open>k\<close>, its accumulator \<open>h\<close> and the
  value \<open>h_next\<close> read from the next lane:
  \<^verbatim>\<open>k = mul32(k, C_i); k = rotl32(k, r_i); k = mul32(k, C_{i+1 mod 4}); h ^= k;
  h = rotl32(h, s_i); h += h_next; h = mul32(h, 5) + A_i\<close>.\<close>

definition lane_C :: "nat \<Rightarrow> number" where
  "lane_C i = [C1, C2, C3, C4] ! (i mod 4)"

definition lane_r :: "nat \<Rightarrow> nat" where
  "lane_r i = [15, 16, 17, 18] ! i"

definition lane_s :: "nat \<Rightarrow> nat" where
  "lane_s i = [19, 17, 15, 13] ! i"

definition lane_A :: "nat \<Rightarrow> number" where
  "lane_A i = [0x561ccd1b, 0x0bcaa747, 0x96cd1c35, 0x32ac3b17] ! i"

definition lane_step :: "nat \<Rightarrow> number \<Rightarrow> number \<Rightarrow> number \<Rightarrow> number" where
  "lane_step i k h h_next =
     (let k = multiply k (lane_C i);
          k = rotl k (lane_r i);
          k = multiply k (lane_C (i + 1));
          h = js_xor h k;
          h = rotl h (lane_s i);
          h = js_add h h_next
      in js_add (multiply h 5) (lane_A i))"

text \<open>One block iteration in which every lane reads the value its next lane held
  before the iteration, as the specification's note reads.\<close>

definition block128_pre_update :: "bytes \<Rightarrow> nat \<Rightarrow> lanes \<Rightarrow> lanes" where
  "block128_pre_update b i hs =
     (let h1 = fst hs; h2 = fst (snd hs); h3 = fst (snd (snd hs)); h4 = snd (snd (snd hs));
          offset = int i * 16;
          k1 = read32 b offset;
          k2 = read32 b (offset + 4);
          k3 = read32 b (offset + 8);
          k4 = read32 b (offset + 12)
      in (lane_step 0 k1 h1 h2, lane_step 1 k2 h2 h3, lane_step 2 k3 h3 h4,
          lane_step 3 k4 h4 h1))"

text \<open>A 64-bit value with both limbs as ToInt32 reads them.\<close>

definition low64 :: "u64 \<Rightarrow> u64" where
  "low64 a = (ToInt32 (fst a), ToInt32 (snd a))"

text \<open>The unsigned 64-bit value that a pair \<^verbatim>\<open>[hi32, lo32]\<close> stands for; each limb is
  read as the unsigned 32-bit integer of its low 32 bits.\<close>

definition val64 :: "u64 \<Rightarrow> int" where
  "val64 a = ToUint32 (fst a) * 2 ^ 32 + ToUint32 (snd a)"

text \<open>The same 64-bit value as a machine word, the high limb first.\<close>

definition w64 :: "u64 \<Rightarrow> 64 word" where
  "w64 a = word_cat (w32 (fst a)) (w32 (snd a))"

section \<open>Evaluation\<close>

text \<open>The rules that run the definitions on concrete input. The bodies are chains of
  \<open>let\<close>; with \<open>let_weak_cong\<close> the simplifier computes the bound value before it
  enters the body.\<close>

lemmas js_eval =
  Let_def js_xor_def js_and_def js_or_def js_shl_def js_shr_def js_add_def js_mul_def
  js_round_def w32_def byte_at_def read32_def multiply_def rotl_def fmix_def

lemmas hex_eval = hex8_def toString16_def slice_last8_def hex_digit_def

lemmas opts_eval = seed_of_def output_of_def format128_def

lemmas eval32 = hash32_def compute32_def block32_def tail32_def C1_32_def C2_32_def

lemmas eval128 =
  hash128_def compute128_def lanes128_def block128_def tail128_def final128_def
  C1_def C2_def C3_def C4_def

lemmas eval128x64 =
  hash128x64_def compute128x64_def lanes128x64_def block128x64_def tail128x64_def
  final128x64_def add64_def multiply64_def rotl64_def lshift64_def xor64_def fmix64_def
  C1_x64_def C2_x64_def

lemma loop32_numeral:
  "loop32 b (numeral k) h = block32 b (pred_numeral k) (loop32 b (pred_numeral k) h)"
  by (simp add: numeral_eq_Suc)

lemma loop128_numeral:
  "loop128 b (numeral k) hs = block128 b (pred_numeral k) (loop128 b (pred_numeral k) hs)"
  by (simp add: numeral_eq_Suc)

lemma loop128x64_numeral:
  "loop128x64 b (numeral k) hs =
     block128x64 b (pred_numeral k) (loop128x64 b (pred_numeral k) hs)"
  by (simp add: numeral_eq_Suc)

section \<open>Reference vectors\<close>

lemma hash32_empty: "hash32 (Str '''') None = 0"
  by (simp add: js_eval eval32 cong: let_weak_cong)

lemma hash32_hex16: "hash32 (Str ''0123456789abcdef'') None = 919068895"
  by (simp add: js_eval eval32 loop32_numeral cong: let_weak_cong)

lemma hash32_empty_seed1: "hash32 (Str '''') (Some 1) = 1364076727"
  by (simp add: js_eval eval32 cong: let_weak_cong)

lemma hash128_empty:
  "hash128 (Str '''') None = Inr (HexString ''00000000000000000000000000000000'')"
  by (simp add: js_eval hex_eval opts_eval eval128 cong: let_weak_cong)

lemma hash128_hex16:
  "hash128 (Str ''0123456789abcdef'') None =
     Inr (HexString ''fb7d440936aed30a48ad1d9b572b3bfd'')"
  by (simp add: js_eval hex_eval opts_eval eval128 cong: let_weak_cong)

lemma hash128x64_empty:
  "hash128x64 (Str '''') None = Inr (HexString ''00000000000000000000000000000000'')"
  by (simp add: js_eval hex_eval opts_eval eval128x64 cong: let_weak_cong)

lemma hash128x64_hex16:
  "hash128x64 (Str ''0123456789abcdef'') None =
     Inr (HexString ''4be06d94cf4ad1a787c35b5c63a708da'')"
  by (simp add: js_eval hex_eval opts_eval eval128x64 cong: let_weak_cong)

text \<open>
  C1. The three engines reproduce the published reference vectors (seed 0 when no
  seed is given, a string standing for its UTF-8 bytes): hash32 of the empty string is
  0, of \<^verbatim>\<open>0123456789abcdef\<close> it is 919068895, and of the empty string with seed 1 it is
  1364076727; hash128 and hash128x64 give 32 zeros for the empty string, and
  \<^verbatim>\<open>fb7d440936aed30a48ad1d9b572b3bfd\<close> and \<^verbatim>\<open>4be06d94cf4ad1a787c35b5c63a708da\<close> for
  \<^verbatim>\<open>0123456789abcdef\<close>.
\<close>

theorem reference_vectors:
  "hash32 (Str '''') None = 0 \<and>
   hash32 (Str ''0123456789abcdef'') None = 919068895 \<and>
   hash32 (Str '''') (Some 1) = 1364076727 \<and>
   hash128 (Str '''') None = Inr (HexString ''00000000000000000000000000000000'') \<and>
   hash128 (Str ''0123456789abcdef'') None =
     Inr (HexString ''fb7d440936aed30a48ad1d9b572b3bfd'') \<and>
   hash128x64 (Str '''') None = Inr (HexString ''00000000000000000000000000000000'') \<and>
   hash128x64 (Str ''0123456789abcdef'') None =
     Inr (HexString ''4be06d94cf4ad1a787c35b5c63a708da'')"
  by (intro conjI hash32_empty hash32_hex16 hash32_empty_seed1 hash128_empty hash128_hex16
      hash128x64_empty hash128x64_hex16)

section \<open>The two 128-bit variants compared\<close>

lemma hash128_test:
  "hash128 (Str ''test'') None = Inr (HexString ''6f02ef30550c7d68550c7d68550c7d68'')"
  by (simp add: js_eval hex_eval opts_eval eval128 cong: let_weak_cong)

lemma hash128x64_test:
  "hash128x64 (Str ''test'') None = Inr (HexString ''ac7d28cc74bde19d9a128231f9bd4d82'')"
  by (simp add: js_eval hex_eval opts_eval eval128x64 cong: let_weak_cong)

text \<open>
  C3, as stated: for every input and every seed the digests of hash128 and hash128x64
  differ. It fails at the empty input with seed 0, where both are 32 zeros.
\<close>

theorem variants_agree_on_empty_input:
  "hash128 (Bytes []) None = hash128x64 (Bytes []) None"
  by (simp add: js_eval hex_eval opts_eval eval128 eval128x64 cong: let_weak_cong)

text \<open>
  C3, amended: the two variants are different functions, not different at every
  input. Their digests differ on the input \<^verbatim>\<open>test\<close> that the repository's test
  compares and on the reference vector \<^verbatim>\<open>0123456789abcdef\<close> (seed 0).
\<close>

theorem variants_differ_on_test_inputs:
  "hash128 (Str ''test'') None \<noteq> hash128x64 (Str ''test'') None \<and>
   hash128 (Str ''0123456789abcdef'') None \<noteq> hash128x64 (Str ''0123456789abcdef'') None"
  by (simp add: hash128_test hash128x64_test hash128_hex16 hash128x64_hex16)

section \<open>Streaming\<close>

lemma copy_chunks_concat:
  "offset + length (concat cs) \<le> length result \<Longrightarrow>
   copy_chunks cs offset result =
     Inr (take offset result @ concat cs @ drop (offset + length (concat cs)) result)"
proof (induction cs arbitrary: offset result)
  case Nil
  then show ?case by simp
next
  case (Cons c cs)
  let ?r = "take offset result @ c @ drop (offset + length c) result"
  from Cons.prems have fit: "offset + length c \<le> length result"
    and rest: "offset + length c + length (concat cs) \<le> length result"
    by simp_all
  have len: "length ?r = length result" using fit by simp
  have step: "set_at result c offset = Inr ?r"
    using fit by (simp add: set_at_def)
  have "copy_chunks cs (offset + length c) ?r =
      Inr (take (offset + length c) ?r @ concat cs @
           drop (offset + length c + length (concat cs)) ?r)"
    using rest len by (intro Cons.IH) simp
  moreover have "take (offset + length c) ?r = take offset result @ c"
    using fit by simp
  moreover have "drop (offset + length c + length (concat cs)) ?r =
      drop (offset + length c + length (concat cs)) result"
    using fit rest by (simp add: ac_simps)
  ultimately show ?case
    using step by (simp add: add.assoc)
qed

lemma gather_ok:
  "stream_ok \<sigma> s \<Longrightarrow> gather \<sigma> s = Inr (concat (map (contents \<sigma>) (chunks s)))"
  using copy_chunks_concat [of 0 "map (contents \<sigma>) (chunks s)" "replicate (totalLength s) 0"]
  by (simp add: gather_def stream_ok_def)

lemma contents_toBytes_ref: "contents \<sigma> (toBytes_ref a) = toBytes (deref \<sigma> a)"
  by (cases a) simp_all

lemma updates_Nil: "updates [] s = s"
  by (simp add: updates_def)

lemma updates_Cons: "updates (c # calls) s = updates calls (update (fst c) (snd c) s)"
  by (simp add: updates_def)

lemma updates_append: "updates (xs @ ys) s = updates ys (updates xs s)"
  by (simp add: updates_def)

lemma chunks_updates:
  "chunks (updates calls s) = chunks s @ map (\<lambda>c. toBytes_ref (snd c)) calls"
  by (induction calls arbitrary: s) (simp_all add: updates_Nil updates_Cons update_def Let_def)

lemma totalLength_updates:
  "totalLength (updates calls s) = totalLength s + length (passed calls)"
  by (induction calls arbitrary: s)
     (simp_all add: updates_Nil updates_Cons update_def Let_def passed_def contents_toBytes_ref)

lemma seed_updates: "this_seed (updates calls s) = this_seed s"
  by (induction calls arbitrary: s) (simp_all add: updates_Nil updates_Cons update_def Let_def)

lemma format_updates: "outputFormat (updates calls s) = outputFormat s"
  by (induction calls arbitrary: s) (simp_all add: updates_Nil updates_Cons update_def Let_def)

lemma unwritten_passed:
  "unwritten \<sigma> calls \<Longrightarrow>
   concat (map (contents \<sigma>) (map (\<lambda>c. toBytes_ref (snd c)) calls)) = passed calls"
  by (induction calls) (simp_all add: unwritten_def passed_def contents_toBytes_ref)

lemma updates_ok:
  assumes "unwritten \<sigma> calls" "chunks s = []" "totalLength s = 0"
  shows "stream_ok \<sigma> (updates calls s)"
  using assms unwritten_passed [of \<sigma> calls]
  by (simp add: stream_ok_def chunks_updates totalLength_updates)

lemma gather_updates:
  assumes "unwritten \<sigma> calls" "chunks s = []" "totalLength s = 0"
  shows "gather \<sigma> (updates calls s) = Inr (passed calls)"
  using assms unwritten_passed [of \<sigma> calls]
  by (simp add: gather_ok updates_ok chunks_updates)

lemma format128_default:
  "format128 (Some (case out of None \<Rightarrow> hex | Some f \<Rightarrow> f)) h = format128 out h"
  by (cases out) (auto simp: format128_def split: HashOutput.splits)

lemma digest32_updates:
  "unwritten \<sigma> calls \<Longrightarrow>
   fst (digest32 \<sigma> (updates calls (createHash32 seed))) =
     Inr (hash32 (Bytes (passed calls)) seed)"
  by (simp add: digest32_def gather_updates seed_updates hash32_def createHash32_def)

lemma digest128_updates:
  "unwritten \<sigma> calls \<Longrightarrow>
   fst (digest128 \<sigma> (updates calls (createHash128 options))) =
     hash128 (Bytes (passed calls)) options"
  by (simp add: digest128_def gather_updates seed_updates format_updates hash128_def
        createHash128_def format128_default)

lemma digest128x64_updates:
  "unwritten \<sigma> calls \<Longrightarrow>
   fst (digest128x64 \<sigma> (updates calls (createHash128x64 options))) =
     hash128x64 (Bytes (passed calls)) options"
  by (simp add: digest128x64_def gather_updates seed_updates format_updates hash128x64_def
        createHash128x64_def format128_default)

lemma digest_frame:
  "snd (digest32 \<sigma> s) = s" "snd (digest128 \<sigma> t) = t" "snd (digest128x64 \<sigma> t) = t"
  by (simp_all add: digest32_def digest128_def digest128x64_def split: sum.splits)

lemma digest32_reads:
  "stream_ok \<sigma> s \<Longrightarrow>
   fst (digest32 \<sigma> s) =
     Inr (compute32 (concat (map (contents \<sigma>) (chunks s))) (this_seed s))"
  by (simp add: digest32_def gather_ok)

lemma gather_same:
  "same_contents \<sigma> \<sigma>' s \<Longrightarrow> gather \<sigma>' s = gather \<sigma> s"
proof -
  assume "same_contents \<sigma> \<sigma>' s"
  then have "map (contents \<sigma>') (chunks s) = map (contents \<sigma>) (chunks s)"
    by (simp add: same_contents_def list_all_iff)
  then show ?thesis by (simp only: gather_def)
qed

lemma digest_same:
  "same_contents \<sigma> \<sigma>' s \<Longrightarrow> fst (digest32 \<sigma>' s) = fst (digest32 \<sigma> s)"
  "same_contents \<sigma> \<sigma>' t \<Longrightarrow> fst (digest128 \<sigma>' t) = fst (digest128 \<sigma> t)"
  "same_contents \<sigma> \<sigma>' t \<Longrightarrow> fst (digest128x64 \<sigma>' t) = fst (digest128x64 \<sigma> t)"
  by (simp_all add: digest32_def digest128_def digest128x64_def gather_same)

lemma bytes32_a: "compute32 [5, 6, 7, 8, 5, 6, 7, 8] 0 = 233590939"
  by (simp add: js_eval eval32 loop32_numeral cong: let_weak_cong)

lemma bytes32_b: "compute32 [1, 2, 3, 4, 5, 6, 7, 8] 0 = 223027131"
  by (simp add: js_eval eval32 loop32_numeral cong: let_weak_cong)

lemma bytes32_c: "compute32 [1, 2, 3] 0 = 2161234436"
  by (simp add: js_eval eval32 loop32_numeral cong: let_weak_cong)

lemma bytes32_d: "compute32 [9, 2, 3] 0 = 2390852712"
  by (simp add: js_eval eval32 loop32_numeral cong: let_weak_cong)

lemmas stream_eval =
  stream_ok_def updates_def update_def createHash32_def one_array_def write_at_def
  passed_def Let_def

text \<open>
  C2, as stated: for every sequence of chunks, \<^verbatim>\<open>update(c1)\<close> to \<^verbatim>\<open>update(cn)\<close> and then
  \<^verbatim>\<open>digest()\<close> return what the one-shot function returns for the concatenation of the
  chunks. It fails when the caller reuses a buffer: after
  \<^verbatim>\<open>update(buf)\<close> with \<^verbatim>\<open>buf = [1,2,3,4]\<close>, \<^verbatim>\<open>buf.set([5,6,7,8])\<close> and \<^verbatim>\<open>update(buf)\<close>,
  the stream of hash32 holds the same array twice and \<^verbatim>\<open>digest()\<close> hashes
  \<^verbatim>\<open>[5,6,7,8,5,6,7,8]\<close> to 233590939, where the chunks that were passed are
  \<^verbatim>\<open>[1,2,3,4]\<close> and \<^verbatim>\<open>[5,6,7,8]\<close> and their concatenation hashes to 223027131.
\<close>

theorem streaming_reads_arrays_at_digest:
  "fst (digest32 (one_array [5, 6, 7, 8])
         (updates [(one_array [1, 2, 3, 4], ArrayArg 0), (one_array [5, 6, 7, 8], ArrayArg 0)]
            (createHash32 None))) = Inr 233590939 \<and>
   hash32 (Bytes (passed [(one_array [1, 2, 3, 4], ArrayArg 0),
                          (one_array [5, 6, 7, 8], ArrayArg 0)])) None = 223027131"
  using digest32_reads [of "one_array [5, 6, 7, 8]"
      "updates [(one_array [1, 2, 3, 4], ArrayArg 0), (one_array [5, 6, 7, 8], ArrayArg 0)]
         (createHash32 None)"]
  by (simp add: stream_eval hash32_def bytes32_a bytes32_b)

text \<open>
  C2, amended. Streaming equivalence: for each of the three engines, every seed and
  output format and every finite sequence of \<^verbatim>\<open>update\<close> calls on a fresh stream, with
  strings or arrays as chunks, \<^verbatim>\<open>digest\<close> returns what the one-shot function returns
  for the concatenation of the chunks as they were passed, with the same seed and
  output format, provided that every array still holds at the \<^verbatim>\<open>digest\<close> call what it
  held when it was passed to \<^verbatim>\<open>update\<close>.
\<close>

theorem streaming_equals_one_shot_unwritten:
  assumes "unwritten \<sigma> calls"
  shows "fst (digest32 \<sigma> (updates calls (createHash32 seed))) =
           Inr (hash32 (Bytes (passed calls)) seed) \<and>
         fst (digest128 \<sigma> (updates calls (createHash128 options))) =
           hash128 (Bytes (passed calls)) options \<and>
         fst (digest128x64 \<sigma> (updates calls (createHash128x64 options))) =
           hash128x64 (Bytes (passed calls)) options"
  using assms by (intro conjI digest32_updates digest128_updates digest128x64_updates)

text \<open>
  C10, as stated: two consecutive \<^verbatim>\<open>digest()\<close> calls with no \<^verbatim>\<open>update\<close> in between
  return equal results. It fails when the caller writes to an array that the stream
  holds: with \<^verbatim>\<open>a = [1,2,3]\<close>, after \<^verbatim>\<open>update(a)\<close> the first \<^verbatim>\<open>digest()\<close> of hash32
  returns 2161234436, and after \<^verbatim>\<open>a[0] = 9\<close> the second returns 2390852712.
\<close>

theorem second_digest_differs_after_write:
  "fst (digest32 (one_array [1, 2, 3])
         (update (one_array [1, 2, 3]) (ArrayArg 0) (createHash32 None))) = Inr 2161234436 \<and>
   fst (digest32 (write_at 0 0 9 (one_array [1, 2, 3]))
         (snd (digest32 (one_array [1, 2, 3])
                (update (one_array [1, 2, 3]) (ArrayArg 0) (createHash32 None))))) =
     Inr 2390852712"
  using digest32_reads [of "one_array [1, 2, 3]"
      "update (one_array [1, 2, 3]) (ArrayArg 0) (createHash32 None)"]
    digest32_reads [of "write_at 0 0 9 (one_array [1, 2, 3])"
      "update (one_array [1, 2, 3]) (ArrayArg 0) (createHash32 None)"]
  by (simp add: digest_frame stream_eval bytes32_c bytes32_d)

text \<open>The array \<^verbatim>\<open>[1,2,3,4]\<close> and then the string \<^verbatim>\<open>ab\<close>, with no write in
  between.\<close>

theorem streaming_equals_one_shot_unwritten_witness:
  "unwritten (one_array [1, 2, 3, 4])
     [(one_array [1, 2, 3, 4], ArrayArg 0), (one_array [1, 2, 3, 4], StrArg ''ab'')] \<and>
   fst (digest32 (one_array [1, 2, 3, 4])
         (updates [(one_array [1, 2, 3, 4], ArrayArg 0), (one_array [1, 2, 3, 4], StrArg ''ab'')]
            (createHash32 None))) =
     Inr (hash32 (Bytes [1, 2, 3, 4, 97, 98]) None) \<and>
   fst (digest128 (one_array [1, 2, 3, 4])
         (updates [(one_array [1, 2, 3, 4], ArrayArg 0), (one_array [1, 2, 3, 4], StrArg ''ab'')]
            (createHash128 None))) =
     hash128 (Bytes [1, 2, 3, 4, 97, 98]) None \<and>
   fst (digest128x64 (one_array [1, 2, 3, 4])
         (updates [(one_array [1, 2, 3, 4], ArrayArg 0), (one_array [1, 2, 3, 4], StrArg ''ab'')]
            (createHash128x64 None))) =
     hash128x64 (Bytes [1, 2, 3, 4, 97, 98]) None"
  using streaming_equals_one_shot_unwritten [of "one_array [1, 2, 3, 4]"
      "[(one_array [1, 2, 3, 4], ArrayArg 0), (one_array [1, 2, 3, 4], StrArg ''ab'')]"
      None None]
  by (simp add: unwritten_def passed_def one_array_def)

text \<open>
  C10, amended. \<^verbatim>\<open>digest\<close> leaves the stream as it was (chunks, total length, seed and
  output format), for each of the three hashers. A second \<^verbatim>\<open>digest\<close> with no \<^verbatim>\<open>update\<close>
  in between returns what the first returned when the arrays that the stream holds
  have the same contents at both calls. A \<^verbatim>\<open>digest\<close> after an earlier \<^verbatim>\<open>digest\<close> and
  further \<^verbatim>\<open>update\<close> calls returns the one-shot hash of the concatenation of all
  chunks passed so far, when every array still holds at that call what it held when
  it was passed.
\<close>

theorem digest_leaves_stream_unchanged:
  "snd (digest32 \<sigma> s) = s \<and> snd (digest128 \<sigma> t) = t \<and> snd (digest128x64 \<sigma> t) = t \<and>
   (same_contents \<sigma> \<sigma>' s \<longrightarrow>
      fst (digest32 \<sigma>' (snd (digest32 \<sigma> s))) = fst (digest32 \<sigma> s)) \<and>
   (same_contents \<sigma> \<sigma>' t \<longrightarrow>
      fst (digest128 \<sigma>' (snd (digest128 \<sigma> t))) = fst (digest128 \<sigma> t) \<and>
      fst (digest128x64 \<sigma>' (snd (digest128x64 \<sigma> t))) = fst (digest128x64 \<sigma> t)) \<and>
   (unwritten \<sigma>' (xs @ ys) \<longrightarrow>
      fst (digest32 \<sigma>'
            (updates ys (snd (digest32 \<sigma> (updates xs (createHash32 seed)))))) =
        Inr (hash32 (Bytes (passed (xs @ ys))) seed) \<and>
      fst (digest128 \<sigma>'
            (updates ys (snd (digest128 \<sigma> (updates xs (createHash128 options)))))) =
        hash128 (Bytes (passed (xs @ ys))) options \<and>
      fst (digest128x64 \<sigma>'
            (updates ys
               (snd (digest128x64 \<sigma> (updates xs (createHash128x64 options)))))) =
        hash128x64 (Bytes (passed (xs @ ys))) options)"
  using digest32_updates [of \<sigma>' "xs @ ys" seed] digest128_updates [of \<sigma>' "xs @ ys" options]
    digest128x64_updates [of \<sigma>' "xs @ ys" options]
  by (simp add: digest_frame digest_same updates_append)

text \<open>A stream that holds the array \<^verbatim>\<open>[1,2,3]\<close>; between the two \<^verbatim>\<open>digest\<close> calls the
  caller makes a second array \<^verbatim>\<open>[7]\<close> and passes it.\<close>

theorem digest_leaves_stream_unchanged_witness:
  "same_contents (one_array [1, 2, 3]) ((one_array [1, 2, 3])(1 := [7]))
     (update (one_array [1, 2, 3]) (ArrayArg 0) (createHash32 None)) \<and>
   same_contents (one_array [1, 2, 3]) ((one_array [1, 2, 3])(1 := [7]))
     (update (one_array [1, 2, 3]) (ArrayArg 0) (createHash128 None)) \<and>
   unwritten ((one_array [1, 2, 3])(1 := [7]))
     ([(one_array [1, 2, 3], ArrayArg 0)] @ [((one_array [1, 2, 3])(1 := [7]), ArrayArg 1)]) \<and>
   fst (digest32 ((one_array [1, 2, 3])(1 := [7]))
         (snd (digest32 (one_array [1, 2, 3])
                (update (one_array [1, 2, 3]) (ArrayArg 0) (createHash32 None))))) =
     fst (digest32 (one_array [1, 2, 3])
           (update (one_array [1, 2, 3]) (ArrayArg 0) (createHash32 None))) \<and>
   fst (digest128 ((one_array [1, 2, 3])(1 := [7]))
         (snd (digest128 (one_array [1, 2, 3])
                (update (one_array [1, 2, 3]) (ArrayArg 0) (createHash128 None))))) =
     fst (digest128 (one_array [1, 2, 3])
           (update (one_array [1, 2, 3]) (ArrayArg 0) (createHash128 None))) \<and>
   fst (digest32 ((one_array [1, 2, 3])(1 := [7]))
         (updates [((one_array [1, 2, 3])(1 := [7]), ArrayArg 1)]
            (snd (digest32 (one_array [1, 2, 3])
                   (updates [(one_array [1, 2, 3], ArrayArg 0)] (createHash32 None)))))) =
     Inr (hash32 (Bytes (passed ([(one_array [1, 2, 3], ArrayArg 0)] @
                                 [((one_array [1, 2, 3])(1 := [7]), ArrayArg 1)]))) None)"
proof -
  let ?\<sigma> = "one_array [1, 2, 3]"
  let ?\<sigma>' = "(one_array [1, 2, 3])(1 := [7])"
  let ?s = "update ?\<sigma> (ArrayArg 0) (createHash32 None)"
  let ?t = "update ?\<sigma> (ArrayArg 0) (createHash128 None)"
  let ?xs = "[(?\<sigma>, ArrayArg 0)]"
  let ?ys = "[(?\<sigma>', ArrayArg 1)]"
  have s: "same_contents ?\<sigma> ?\<sigma>' ?s"
    by (simp add: same_contents_def update_def Let_def createHash32_def one_array_def)
  have t: "same_contents ?\<sigma> ?\<sigma>' ?t"
    by (simp add: same_contents_def update_def Let_def createHash128_def one_array_def)
  have u: "unwritten ?\<sigma>' (?xs @ ?ys)"
    by (simp add: unwritten_def one_array_def)
  from s t u digest_leaves_stream_unchanged [of ?\<sigma> ?s ?t ?\<sigma>' ?xs ?ys None None]
  show ?thesis by blast
qed

section \<open>Output shape\<close>

lemma hex_digit_in: "d < 16 \<Longrightarrow> hex_digit d \<in> hex_chars"
proof -
  assume "d < 16"
  then have "nat d < length ''0123456789abcdef''" by simp
  then show ?thesis unfolding hex_digit_def hex_chars_def by (rule nth_mem)
qed

lemma hex_digits_in: "set (hex_digits x) \<subseteq> hex_chars"
proof (induction x rule: hex_digits.induct)
  case (1 x)
  show ?case
  proof (cases "x < 16")
    case True
    then show ?thesis by (subst hex_digits.simps) (simp add: hex_digit_in)
  next
    case False
    have "x mod 16 < 16" by simp
    with False 1 show ?thesis
      by (subst hex_digits.simps) (simp add: hex_digit_in)
  qed
qed

lemma js_shr_nonneg: "0 \<le> js_shr a n"
  by (simp add: js_shr_def)

lemma js_shr_less: "js_shr a n < 2 ^ 32"
  using uint_bounded [of "drop_bit (n mod 32) (w32 a)"] by (simp add: js_shr_def)

lemma hex8_length: "length (hex8 h) = 8"
  by (simp add: hex8_def slice_last8_def)

lemma hex8_in: "set (hex8 h) \<subseteq> hex_chars"
proof -
  have "set (hex8 h) \<subseteq> set (''00000000'' @ toString16 (js_shr h 0))"
    unfolding hex8_def slice_last8_def by (rule set_drop_subset)
  also have "\<dots> \<subseteq> hex_chars"
    using hex_digits_in [of "js_shr h 0"] js_shr_nonneg [of h 0]
    by (simp add: toString16_def hex_chars_def)
  finally show ?thesis .
qed

lemma hex_val_Some: "c \<in> hex_chars \<Longrightarrow> \<exists>d. hex_val c = Some d \<and> 0 \<le> d"
  by (auto simp: hex_chars_def hex_val_def)

lemma parse_hex_Some:
  "set s \<subseteq> hex_chars \<Longrightarrow> 0 \<le> acc \<Longrightarrow> \<exists>v. parse_hex acc s = Some v \<and> 0 \<le> v"
proof (induction s arbitrary: acc)
  case Nil
  then show ?case by simp
next
  case (Cons c s)
  then obtain d where d: "hex_val c = Some d" "0 \<le> d"
    using hex_val_Some [of c] by auto
  with Cons.prems have "0 \<le> acc * 16 + d" by simp
  with Cons d show ?case by simp
qed

lemma hexToBigInt_Inr:
  "set s \<subseteq> hex_chars \<Longrightarrow> s \<noteq> [] \<Longrightarrow> \<exists>v. hexToBigInt s = Inr v \<and> 0 \<le> v"
  using parse_hex_Some [of s 0] by (auto simp: hexToBigInt_def)

lemma compute128_shape:
  "length (compute128 b seed) = 32 \<and> set (compute128 b seed) \<subseteq> hex_chars"
  by (cases "lanes128 b seed") (simp add: compute128_def hex8_length hex8_in)

lemma compute128x64_shape:
  "length (compute128x64 b seed) = 32 \<and> set (compute128x64 b seed) \<subseteq> hex_chars"
  by (cases "lanes128x64 b seed") (simp add: compute128x64_def hex8_length hex8_in)

lemma compute32_range: "0 \<le> compute32 b seed \<and> compute32 b seed \<le> 2 ^ 32 - 1"
  using js_shr_less [of _ 0] by (simp add: compute32_def Let_def js_shr_nonneg) (smt (verit))

lemma format128_hex:
  "out \<noteq> Some bigint \<Longrightarrow> format128 out h = Inr (HexString h)"
  by (simp add: format128_def)

lemma format128_bigint:
  "hexToBigInt h = Inr v \<Longrightarrow> format128 (Some bigint) h = Inr (BigIntValue v)"
  by (simp add: format128_def)

lemma digit16_hex_digit: "0 \<le> d \<Longrightarrow> d < 16 \<Longrightarrow> digit16 (hex_digit d) = d"
proof -
  assume "0 \<le> d" "d < 16"
  then have "d = 0 \<or> d = 1 \<or> d = 2 \<or> d = 3 \<or> d = 4 \<or> d = 5 \<or> d = 6 \<or> d = 7 \<or>
      d = 8 \<or> d = 9 \<or> d = 10 \<or> d = 11 \<or> d = 12 \<or> d = 13 \<or> d = 14 \<or> d = 15"
    by arith
  then show ?thesis
    by (elim disjE) (simp_all add: digit16_def hex_digit_def)
qed

lemma base16_snoc: "base16 (s @ [c]) = base16 s * 16 + digit16 c"
  by (simp add: base16_def)

lemma base16_hex_digits: "0 \<le> x \<Longrightarrow> base16 (hex_digits x) = x"
proof (induction x rule: hex_digits.induct)
  case (1 x)
  show ?case
  proof (cases "x < 16")
    case True
    with 1 show ?thesis
      by (subst hex_digits.simps) (simp add: base16_def digit16_hex_digit)
  next
    case False
    with 1 have "base16 (hex_digits (x div 16)) = x div 16" by simp
    moreover have "digit16 (hex_digit (x mod 16)) = x mod 16"
      by (simp add: digit16_hex_digit)
    ultimately show ?thesis
      using False by (subst hex_digits.simps) (simp add: base16_snoc)
  qed
qed

lemma hex_digits_length: "0 < n \<Longrightarrow> x < 16 ^ n \<Longrightarrow> length (hex_digits x) \<le> n"
proof (induction n arbitrary: x)
  case 0
  then show ?case by simp
next
  case (Suc n)
  show ?case
  proof (cases "x < 16")
    case True
    then show ?thesis by (subst hex_digits.simps) simp
  next
    case False
    with Suc.prems have n: "0 < n" by (cases n) simp_all
    from Suc.prems have "x div 16 < 16 ^ n" by (simp add: div_less_iff_less_mult mult.commute)
    with n have "length (hex_digits (x div 16)) \<le> n" by (rule Suc.IH)
    with False show ?thesis by (subst hex_digits.simps) simp
  qed
qed

lemma hex_digits_nonempty: "hex_digits x \<noteq> []"
  by (subst hex_digits.simps) simp

lemma base16_zeros: "set z \<subseteq> {CHR ''0''} \<Longrightarrow> base16 (z @ s) = base16 s"
proof (induction z)
  case Nil
  then show ?case by simp
next
  case (Cons c z)
  then have "c = CHR ''0''" by simp
  moreover have "digit16 CHR ''0'' = 0" by (simp add: digit16_def)
  ultimately have "base16 ((c # z) @ s) = base16 (z @ s)" by (simp add: base16_def)
  with Cons show ?case by simp
qed

lemma base16_padded:
  assumes "length ds \<le> 8"
  shows "base16 (slice_last8 (''00000000'' @ ds)) = base16 ds"
proof -
  have "drop (length (zs @ ds) - 8) (zs @ ds) = drop (length ds) zs @ ds"
    if "length zs = 8" for zs :: string
    using that assms by simp
  from this [of "''00000000''"]
  have "slice_last8 (''00000000'' @ ds) = drop (length ds) ''00000000'' @ ds"
    by (simp add: slice_last8_def)
  moreover have "base16 (drop (length ds) ''00000000'' @ ds) = base16 ds"
  proof (rule base16_zeros)
    have "set (drop (length ds) ''00000000'') \<subseteq> set ''00000000''"
      by (rule set_drop_subset)
    then show "set (drop (length ds) ''00000000'') \<subseteq> {CHR ''0''}" by simp
  qed
  ultimately show ?thesis by simp
qed

lemma js_shr_0: "js_shr h 0 = ToUint32 h"
  by (simp add: js_shr_def ToUint32_def)

lemma base16_hex8: "base16 (hex8 h) = ToUint32 h"
proof -
  define x where "x = js_shr h 0"
  have x: "0 \<le> x" "x < 16 ^ 8"
    using js_shr_nonneg [of h 0] js_shr_less [of h 0] by (simp_all add: x_def)
  have "length (hex_digits x) \<le> 8"
    using _ x(2) by (rule hex_digits_length) simp
  then have "base16 (slice_last8 (''00000000'' @ hex_digits x)) = base16 (hex_digits x)"
    by (rule base16_padded)
  also have "\<dots> = x" using x(1) by (rule base16_hex_digits)
  finally have pad: "base16 (slice_last8 (''00000000'' @ hex_digits x)) = x" .
  have "\<not> x < 0" using x(1) by simp
  then have "toString16 x = hex_digits x"
    unfolding toString16_def by (rule if_not_P)
  then have "hex8 h = slice_last8 (''00000000'' @ hex_digits x)"
    by (simp only: hex8_def x_def)
  with pad have "base16 (hex8 h) = x" by (simp only:)
  then show ?thesis by (simp only: x_def js_shr_0)
qed

lemma hex_val_digit16: "c \<in> hex_chars \<Longrightarrow> hex_val c = Some (digit16 c)"
proof -
  assume "c \<in> hex_chars"
  then have "c = CHR ''0'' \<or> c = CHR ''1'' \<or> c = CHR ''2'' \<or> c = CHR ''3'' \<or>
      c = CHR ''4'' \<or> c = CHR ''5'' \<or> c = CHR ''6'' \<or> c = CHR ''7'' \<or>
      c = CHR ''8'' \<or> c = CHR ''9'' \<or> c = CHR ''a'' \<or> c = CHR ''b'' \<or>
      c = CHR ''c'' \<or> c = CHR ''d'' \<or> c = CHR ''e'' \<or> c = CHR ''f''"
    unfolding hex_chars_def by simp
  then show ?thesis
    by (elim disjE) (simp_all add: hex_val_def digit16_def)
qed

lemma parse_hex_base16:
  "set s \<subseteq> hex_chars \<Longrightarrow>
   parse_hex acc s = Some (foldl (\<lambda>acc c. acc * 16 + digit16 c) acc s)"
  by (induction s arbitrary: acc) (simp_all add: hex_val_digit16)

lemma hexToBigInt_base16:
  "set s \<subseteq> hex_chars \<Longrightarrow> s \<noteq> [] \<Longrightarrow> hexToBigInt s = Inr (base16 s)"
  by (simp add: hexToBigInt_def parse_hex_base16 base16_def)

lemma digit16_nonneg: "0 \<le> digit16 c"
  by (simp add: digit16_def)

lemma foldl16_nonneg: "0 \<le> acc \<Longrightarrow> 0 \<le> foldl (\<lambda>acc c. acc * 16 + digit16 c) acc s"
  by (induction s arbitrary: acc) (simp_all add: digit16_nonneg)

lemma base16_nonneg: "0 \<le> base16 s"
  by (simp add: base16_def foldl16_nonneg)

lemma hex_format:
  fixes l1 l2 l3 l4 :: number
  defines "h \<equiv> hex8 l1 @ hex8 l2 @ hex8 l3 @ hex8 l4"
  shows "set h \<subseteq> hex_chars"
    and "format128 None h = Inr (HexString h)"
    and "format128 (Some hex) h = Inr (HexString h)"
    and "format128 (Some bigint) h = Inr (BigIntValue (base16 h))"
proof -
  show chars: "set h \<subseteq> hex_chars"
    using hex8_in [of l1] hex8_in [of l2] hex8_in [of l3] hex8_in [of l4]
    by (simp add: h_def)
  have "length h = 32" by (simp add: h_def hex8_length)
  then have "h \<noteq> []" by auto
  with chars have "hexToBigInt h = Inr (base16 h)" by (rule hexToBigInt_base16)
  then show "format128 (Some bigint) h = Inr (BigIntValue (base16 h))"
    by (rule format128_bigint)
  show "format128 None h = Inr (HexString h)" "format128 (Some hex) h = Inr (HexString h)"
    by (simp_all add: format128_hex)
qed

lemma hash128_shape:
  "\<exists>l1 l2 l3 l4 g1 g2 g3 g4.
     lanes128 (toBytes input) (case s of None \<Rightarrow> 0 | Some x \<Rightarrow> x) = (l1, l2, l3, l4) \<and>
     length g1 = 8 \<and> length g2 = 8 \<and> length g3 = 8 \<and> length g4 = 8 \<and>
     set (g1 @ g2 @ g3 @ g4) \<subseteq> hex_chars \<and>
     base16 g1 = ToUint32 l1 \<and> base16 g2 = ToUint32 l2 \<and>
     base16 g3 = ToUint32 l3 \<and> base16 g4 = ToUint32 l4 \<and>
     hash128 input (Some \<lparr>opt_seed = s, opt_output = None\<rparr>) =
       Inr (HexString (g1 @ g2 @ g3 @ g4)) \<and>
     hash128 input (Some \<lparr>opt_seed = s, opt_output = Some hex\<rparr>) =
       Inr (HexString (g1 @ g2 @ g3 @ g4)) \<and>
     hash128 input (Some \<lparr>opt_seed = s, opt_output = Some bigint\<rparr>) =
       Inr (BigIntValue (base16 (g1 @ g2 @ g3 @ g4))) \<and>
     0 \<le> base16 (g1 @ g2 @ g3 @ g4)"
proof -
  let ?sd = "case s of None \<Rightarrow> 0 | Some x \<Rightarrow> x"
  obtain l1 l2 l3 l4 where ls: "lanes128 (toBytes input) ?sd = (l1, l2, l3, l4)"
    by (cases "lanes128 (toBytes input) ?sd") auto
  let ?h = "hex8 l1 @ hex8 l2 @ hex8 l3 @ hex8 l4"
  have h: "compute128 (toBytes input) ?sd = ?h"
    by (simp add: compute128_def ls)
  have call: "hash128 input (Some \<lparr>opt_seed = s, opt_output = out\<rparr>) =
      format128 out (compute128 (toBytes input) ?sd)" for out
    by (simp add: hash128_def seed_of_def output_of_def)
  note fmt = hex_format [of l1 l2 l3 l4]
  have f1: "hash128 input (Some \<lparr>opt_seed = s, opt_output = None\<rparr>) = Inr (HexString ?h)"
    unfolding call h by (rule fmt(2))
  have f2: "hash128 input (Some \<lparr>opt_seed = s, opt_output = Some hex\<rparr>) =
      Inr (HexString ?h)"
    unfolding call h by (rule fmt(3))
  have f3: "hash128 input (Some \<lparr>opt_seed = s, opt_output = Some bigint\<rparr>) =
      Inr (BigIntValue (base16 ?h))"
    unfolding call h by (rule fmt(4))
  have "lanes128 (toBytes input) ?sd = (l1, l2, l3, l4) \<and>
     length (hex8 l1) = 8 \<and> length (hex8 l2) = 8 \<and> length (hex8 l3) = 8 \<and>
     length (hex8 l4) = 8 \<and>
     set ?h \<subseteq> hex_chars \<and>
     base16 (hex8 l1) = ToUint32 l1 \<and> base16 (hex8 l2) = ToUint32 l2 \<and>
     base16 (hex8 l3) = ToUint32 l3 \<and> base16 (hex8 l4) = ToUint32 l4 \<and>
     hash128 input (Some \<lparr>opt_seed = s, opt_output = None\<rparr>) = Inr (HexString ?h) \<and>
     hash128 input (Some \<lparr>opt_seed = s, opt_output = Some hex\<rparr>) = Inr (HexString ?h) \<and>
     hash128 input (Some \<lparr>opt_seed = s, opt_output = Some bigint\<rparr>) =
       Inr (BigIntValue (base16 ?h)) \<and>
     0 \<le> base16 ?h"
    by (intro conjI ls hex8_length base16_hex8 fmt(1) f1 f2 f3 base16_nonneg)
  then show ?thesis by blast
qed

lemma hash128x64_shape:
  "\<exists>l1 l2 l3 l4 g1 g2 g3 g4.
     lanes128x64 (toBytes input) (case s of None \<Rightarrow> 0 | Some x \<Rightarrow> x) = ((l1, l2), (l3, l4)) \<and>
     length g1 = 8 \<and> length g2 = 8 \<and> length g3 = 8 \<and> length g4 = 8 \<and>
     set (g1 @ g2 @ g3 @ g4) \<subseteq> hex_chars \<and>
     base16 g1 = ToUint32 l1 \<and> base16 g2 = ToUint32 l2 \<and>
     base16 g3 = ToUint32 l3 \<and> base16 g4 = ToUint32 l4 \<and>
     hash128x64 input (Some \<lparr>opt_seed = s, opt_output = None\<rparr>) =
       Inr (HexString (g1 @ g2 @ g3 @ g4)) \<and>
     hash128x64 input (Some \<lparr>opt_seed = s, opt_output = Some hex\<rparr>) =
       Inr (HexString (g1 @ g2 @ g3 @ g4)) \<and>
     hash128x64 input (Some \<lparr>opt_seed = s, opt_output = Some bigint\<rparr>) =
       Inr (BigIntValue (base16 (g1 @ g2 @ g3 @ g4))) \<and>
     0 \<le> base16 (g1 @ g2 @ g3 @ g4)"
proof -
  let ?sd = "case s of None \<Rightarrow> 0 | Some x \<Rightarrow> x"
  obtain l1 l2 l3 l4 where ls: "lanes128x64 (toBytes input) ?sd = ((l1, l2), (l3, l4))"
    by (cases "lanes128x64 (toBytes input) ?sd") auto
  let ?h = "hex8 l1 @ hex8 l2 @ hex8 l3 @ hex8 l4"
  have h: "compute128x64 (toBytes input) ?sd = ?h"
    by (simp add: compute128x64_def ls)
  have call: "hash128x64 input (Some \<lparr>opt_seed = s, opt_output = out\<rparr>) =
      format128 out (compute128x64 (toBytes input) ?sd)" for out
    by (simp add: hash128x64_def seed_of_def output_of_def)
  note fmt = hex_format [of l1 l2 l3 l4]
  have f1: "hash128x64 input (Some \<lparr>opt_seed = s, opt_output = None\<rparr>) = Inr (HexString ?h)"
    unfolding call h by (rule fmt(2))
  have f2: "hash128x64 input (Some \<lparr>opt_seed = s, opt_output = Some hex\<rparr>) =
      Inr (HexString ?h)"
    unfolding call h by (rule fmt(3))
  have f3: "hash128x64 input (Some \<lparr>opt_seed = s, opt_output = Some bigint\<rparr>) =
      Inr (BigIntValue (base16 ?h))"
    unfolding call h by (rule fmt(4))
  have "lanes128x64 (toBytes input) ?sd = ((l1, l2), (l3, l4)) \<and>
     length (hex8 l1) = 8 \<and> length (hex8 l2) = 8 \<and> length (hex8 l3) = 8 \<and>
     length (hex8 l4) = 8 \<and>
     set ?h \<subseteq> hex_chars \<and>
     base16 (hex8 l1) = ToUint32 l1 \<and> base16 (hex8 l2) = ToUint32 l2 \<and>
     base16 (hex8 l3) = ToUint32 l3 \<and> base16 (hex8 l4) = ToUint32 l4 \<and>
     hash128x64 input (Some \<lparr>opt_seed = s, opt_output = None\<rparr>) = Inr (HexString ?h) \<and>
     hash128x64 input (Some \<lparr>opt_seed = s, opt_output = Some hex\<rparr>) = Inr (HexString ?h) \<and>
     hash128x64 input (Some \<lparr>opt_seed = s, opt_output = Some bigint\<rparr>) =
       Inr (BigIntValue (base16 ?h)) \<and>
     0 \<le> base16 ?h"
    by (intro conjI ls hex8_length base16_hex8 fmt(1) f1 f2 f3 base16_nonneg)
  then show ?thesis by blast
qed

text \<open>
  C9. Output shape, for every input and every seed \<open>s\<close> (given or not): hash32
  returns an integer between 0 and \<open>2 ^ 32 - 1\<close>. hash128 and hash128x64 with hex
  output (asked for or by default) return a string of 32 lowercase hex characters made
  of four groups of 8, one for each 32-bit word of the final state in the order of the
  state; each group denotes in base 16 the unsigned value of its word, so a short
  value is padded with zeros on the left. With output \<^verbatim>\<open>bigint\<close> they return the
  non-negative integer that this same string denotes in base 16; no call fails.
\<close>

theorem output_shape:
  "0 \<le> hash32 input seed \<and> hash32 input seed \<le> 2 ^ 32 - 1 \<and>
   (\<exists>l1 l2 l3 l4 g1 g2 g3 g4.
     lanes128 (toBytes input) (case s of None \<Rightarrow> 0 | Some x \<Rightarrow> x) = (l1, l2, l3, l4) \<and>
     length g1 = 8 \<and> length g2 = 8 \<and> length g3 = 8 \<and> length g4 = 8 \<and>
     set (g1 @ g2 @ g3 @ g4) \<subseteq> hex_chars \<and>
     base16 g1 = ToUint32 l1 \<and> base16 g2 = ToUint32 l2 \<and>
     base16 g3 = ToUint32 l3 \<and> base16 g4 = ToUint32 l4 \<and>
     hash128 input (Some \<lparr>opt_seed = s, opt_output = None\<rparr>) =
       Inr (HexString (g1 @ g2 @ g3 @ g4)) \<and>
     hash128 input (Some \<lparr>opt_seed = s, opt_output = Some hex\<rparr>) =
       Inr (HexString (g1 @ g2 @ g3 @ g4)) \<and>
     hash128 input (Some \<lparr>opt_seed = s, opt_output = Some bigint\<rparr>) =
       Inr (BigIntValue (base16 (g1 @ g2 @ g3 @ g4))) \<and>
     0 \<le> base16 (g1 @ g2 @ g3 @ g4)) \<and>
   (\<exists>l1 l2 l3 l4 g1 g2 g3 g4.
     lanes128x64 (toBytes input) (case s of None \<Rightarrow> 0 | Some x \<Rightarrow> x) = ((l1, l2), (l3, l4)) \<and>
     length g1 = 8 \<and> length g2 = 8 \<and> length g3 = 8 \<and> length g4 = 8 \<and>
     set (g1 @ g2 @ g3 @ g4) \<subseteq> hex_chars \<and>
     base16 g1 = ToUint32 l1 \<and> base16 g2 = ToUint32 l2 \<and>
     base16 g3 = ToUint32 l3 \<and> base16 g4 = ToUint32 l4 \<and>
     hash128x64 input (Some \<lparr>opt_seed = s, opt_output = None\<rparr>) =
       Inr (HexString (g1 @ g2 @ g3 @ g4)) \<and>
     hash128x64 input (Some \<lparr>opt_seed = s, opt_output = Some hex\<rparr>) =
       Inr (HexString (g1 @ g2 @ g3 @ g4)) \<and>
     hash128x64 input (Some \<lparr>opt_seed = s, opt_output = Some bigint\<rparr>) =
       Inr (BigIntValue (base16 (g1 @ g2 @ g3 @ g4))) \<and>
     0 \<le> base16 (g1 @ g2 @ g3 @ g4))"
proof -
  have "0 \<le> hash32 input seed" "hash32 input seed \<le> 2 ^ 32 - 1"
    using compute32_range [of "toBytes input"] by (simp_all add: hash32_def)
  with hash128_shape [of input s] hash128x64_shape [of input s] show ?thesis
    by blast
qed

section \<open>Cross-lane reads of the x86 128-bit block loop\<close>

lemmas lane_eval = lane_step_def lane_C_def lane_r_def lane_s_def lane_A_def

text \<open>
  C4, as stated: in a block iteration every lane, lane 4 included, adds the value its
  next lane held before the iteration. It fails for lane 4: on a block of 16 zero
  bytes from the state \<open>(0, 0, 0, 0)\<close> the code's iteration and the one that reads only
  pre-update values give different results.
\<close>

theorem block128_not_all_pre_update:
  "block128 (replicate 16 0) 0 (0, 0, 0, 0) \<noteq>
   block128_pre_update (replicate 16 0) 0 (0, 0, 0, 0)"
  by (simp add: js_eval eval128 block128_pre_update_def lane_eval cong: let_weak_cong)

text \<open>
  C4, amended: in every block iteration lanes 1, 2 and 3 add the pre-update value of
  their next lane (\<open>h2\<close>, \<open>h3\<close>, \<open>h4\<close>), and lane 4 adds the value of lane 1 that this
  same iteration has just computed.
\<close>

theorem block128_cross_lane_reads:
  "block128 b i (h1, h2, h3, h4) =
     (let k1 = read32 b (int i * 16);
          k2 = read32 b (int i * 16 + 4);
          k3 = read32 b (int i * 16 + 8);
          k4 = read32 b (int i * 16 + 12);
          h1' = lane_step 0 k1 h1 h2
      in (h1', lane_step 1 k2 h2 h3, lane_step 2 k3 h3 h4, lane_step 3 k4 h4 h1'))"
  by (simp add: block128_def lane_eval Let_def)

section \<open>The operators in integer arithmetic\<close>

lemma js_round_exact: "\<bar>x\<bar> \<le> 2 ^ 53 \<Longrightarrow> js_round x = x"
  by (simp add: js_round_def)

lemma js_add_exact: "\<bar>a + b\<bar> \<le> 2 ^ 53 \<Longrightarrow> js_add a b = a + b"
  by (simp add: js_add_def js_round_exact)

lemma js_mul_exact: "\<bar>a * b\<bar> \<le> 2 ^ 53 \<Longrightarrow> js_mul a b = a * b"
  by (simp add: js_mul_def js_round_exact)

lemma w32_eq_iff: "w32 x = w32 y \<longleftrightarrow> x mod 2 ^ 32 = y mod 2 ^ 32"
  by (simp add: w32_def word_of_int_eq_iff take_bit_eq_mod)

lemma uint_w32: "uint (w32 x) = x mod 2 ^ 32"
  by (simp add: w32_def uint_word_of_int)

lemma sint_w32: "sint (w32 x) = (x + 2 ^ 31) mod 2 ^ 32 - 2 ^ 31"
  by (simp add: w32_def sint_sbintrunc' signed_take_bit_eq_take_bit_shift take_bit_eq_mod)

lemma w32_sint: "w32 (sint (w :: 32 word)) = w"
  by (simp add: w32_def)

lemma w32_uint: "w32 (uint (w :: 32 word)) = w"
  by (simp add: w32_def)

lemma sint32_bounds: "- (2 ^ 31) \<le> sint (w :: 32 word) \<and> sint w < 2 ^ 31"
  using sint_ge [of w] sint_lt [of w] by simp

lemma sint_eq_uint_small:
  assumes "uint (w :: 32 word) < 2 ^ 31"
  shows "sint w = uint w"
proof -
  have "- (2 ^ 31) \<le> uint w"
    by (rule order.trans [OF _ uint_ge_0]) simp
  then have "signed_take_bit 31 (uint w) = uint w"
    using assms by (rule signed_take_bit_int_eq_self)
  then show ?thesis by (simp add: sint_uint)
qed

lemma js_shr_eq: "js_shr a n = (a mod 2 ^ 32) div 2 ^ (n mod 32)"
proof -
  have "uint (drop_bit (n mod 32) (w32 a)) = drop_bit (n mod 32) (uint (w32 a))"
    by (simp only: unsigned_drop_bit_eq) (simp add: bintr_uint)
  then show ?thesis
    by (simp only: js_shr_def uint_w32 drop_bit_eq_div)
qed

lemma js_shr16: "js_shr a 16 = (a mod 2 ^ 32) div 2 ^ 16"
  by (simp add: js_shr_eq)

lemma and_ffff: "(w :: 32 word) AND 0xffff = take_bit 16 w"
proof -
  have "(0xffff :: 32 word) = mask 16" by (simp add: mask_eq_exp_minus_1)
  then show ?thesis by (simp add: take_bit_eq_mask)
qed

lemma uint_take_bit16: "uint (take_bit 16 (w :: 32 word)) = uint w mod 2 ^ 16"
  by (metis take_bit_eq_mod unsigned_take_bit_eq)

lemma js_and_ffff: "js_and a 0xffff = a mod 2 ^ 16"
proof -
  have "w32 0xffff = (0xffff :: 32 word)" by (simp add: w32_def)
  then have "js_and a 0xffff = sint (take_bit 16 (w32 a))"
    by (simp add: js_and_def and_ffff)
  also have "\<dots> = uint (take_bit 16 (w32 a))"
  proof (rule sint_eq_uint_small)
    have "uint (take_bit 16 (w32 a)) < 2 ^ 16"
      by (simp add: uint_take_bit16)
    then show "uint (take_bit 16 (w32 a)) < 2 ^ 31" by simp
  qed
  also have "\<dots> = (a mod 2 ^ 32) mod 2 ^ 16"
    by (simp only: uint_take_bit16 uint_w32)
  also have "\<dots> = a mod 2 ^ 16"
    by (simp add: mod_mod_cancel)
  finally show ?thesis .
qed

lemma js_shl_w32: "w32 (js_shl a n) = w32 (a * 2 ^ (n mod 32))"
  by (simp add: js_shl_def w32_sint push_bit_eq_mult w32_def)

lemma js_or_0: "js_or a 0 = sint (w32 a)"
  by (simp add: js_or_def w32_def)

lemma split16: "(a::int) mod 2 ^ 16 + 2 ^ 16 * ((a mod 2 ^ 32) div 2 ^ 16) = a mod 2 ^ 32"
proof -
  have "(a mod 2 ^ 32) mod 2 ^ 16 = a mod 2 ^ 16"
    by (simp add: mod_mod_cancel)
  then show ?thesis
    using mod_mult_div_eq [of "a mod 2 ^ 32" "2 ^ 16"] by simp
qed

lemma multiply_wraps:
  assumes "\<bar>b\<bar> \<le> 2 ^ 32"
  shows "multiply a b = sint (w32 (a * b))"
proof -
  let ?al = "a mod 2 ^ 16" and ?ah = "(a mod 2 ^ 32) div 2 ^ 16"
  let ?z = "(?ah * b) mod 2 ^ 16"
  have al: "0 \<le> ?al" "?al < 2 ^ 16" by simp_all
  have ah: "0 \<le> ?ah" "?ah < 2 ^ 16" by simp_all
  have lo: "\<bar>?al * b\<bar> \<le> 2 ^ 48"
  proof -
    have "\<bar>?al * b\<bar> = ?al * \<bar>b\<bar>" using al by (simp add: abs_mult)
    also have "\<dots> \<le> 2 ^ 16 * 2 ^ 32"
      using al assms by (intro mult_mono) simp_all
    finally show ?thesis by simp
  qed
  have hi: "\<bar>?ah * b\<bar> \<le> 2 ^ 48"
  proof -
    have "\<bar>?ah * b\<bar> = ?ah * \<bar>b\<bar>" using ah by (simp add: abs_mult)
    also have "\<dots> \<le> 2 ^ 16 * 2 ^ 32"
      using ah assms by (intro mult_mono) simp_all
    finally show ?thesis by simp
  qed
  have m1: "js_mul ?al b = ?al * b"
    using lo by (intro js_mul_exact) simp
  have m2: "js_mul ?ah b = ?ah * b"
    using hi by (intro js_mul_exact) simp
  let ?s = "js_shl ?z 16"
  have s: "- (2 ^ 31) \<le> ?s" "?s < 2 ^ 31"
    using sint32_bounds [of "push_bit (16 mod 32) (w32 ?z)"] by (simp_all add: js_shl_def)
  have "\<bar>?al * b + ?s\<bar> \<le> 2 ^ 53"
    using lo s by (simp add: abs_le_iff)
  then have sum: "js_add (?al * b) ?s = ?al * b + ?s"
    by (rule js_add_exact)
  have "multiply a b = sint (w32 (?al * b + ?s))"
    by (simp only: multiply_def js_and_ffff js_shr16 m1 m2 sum js_or_0)
  also have "w32 (?al * b + ?s) = w32 (a * b)"
  proof -
    have "w32 (?al * b + ?s) = w32 (?al * b) + w32 ?s"
      by (simp add: w32_def)
    also have "w32 ?s = w32 (?z * 2 ^ 16)"
      by (simp add: js_shl_w32)
    also have "w32 (?al * b) + w32 (?z * 2 ^ 16) = w32 (?al * b + ?z * 2 ^ 16)"
      by (simp add: w32_def)
    also have "\<dots> = w32 (a * b)"
    proof (subst w32_eq_iff)
      have "?z * 2 ^ 16 = (?ah * b * 2 ^ 16) mod 2 ^ 32"
        by (simp add: mult_mod_left)
      then have "(?al * b + ?z * 2 ^ 16) mod 2 ^ 32 = (?al * b + ?ah * b * 2 ^ 16) mod 2 ^ 32"
        by (simp add: mod_add_right_eq)
      also have "?al * b + ?ah * b * 2 ^ 16 = (a mod 2 ^ 32) * b"
      proof -
        have "?al * b + ?ah * b * 2 ^ 16 = (?al + 2 ^ 16 * ?ah) * b"
          by (simp add: algebra_simps)
        then show ?thesis by (simp only: split16)
      qed
      also have "((a mod 2 ^ 32) * b) mod 2 ^ 32 = (a * b) mod 2 ^ 32"
        by (simp add: mod_mult_left_eq)
      finally show "(?al * b + ?z * 2 ^ 16) mod 2 ^ 32 = a * b mod 2 ^ 32" .
    qed
    finally show ?thesis .
  qed
  finally show ?thesis .
qed

text \<open>
  C6. The split-limb \<^verbatim>\<open>multiply\<close> of hash32.ts and hash128.ts returns the product
  truncated to 32 bits with two's-complement wrap-around: read as an unsigned 32-bit
  integer the result is \<open>(a * b) mod 2 ^ 32\<close>. This holds for every 32-bit \<open>b\<close>
  (signed or unsigned) and every integer \<open>a\<close>, a 32-bit one in particular; the
  function is total, so it never fails.
\<close>

theorem multiply_is_product_mod_2_32:
  assumes "- (2 ^ 31) \<le> b" and "b < 2 ^ 32"
  shows "multiply a b = ToInt32 (a * b) \<and> ToUint32 (multiply a b) = (a * b) mod 2 ^ 32"
proof -
  from assms have "\<bar>b\<bar> \<le> 2 ^ 32" by (simp add: abs_le_iff)
  then have "multiply a b = sint (w32 (a * b))" by (rule multiply_wraps)
  then show ?thesis
    by (simp add: ToInt32_def ToUint32_def w32_sint uint_w32)
qed

theorem multiply_is_product_mod_2_32_witness:
  "- (2 ^ 31) \<le> (3432918353 :: int) \<and> (3432918353 :: int) < 2 ^ 32 \<and>
   multiply 4294967295 3432918353 = 862048943 \<and>
   ToUint32 (multiply 4294967295 3432918353) = 862048943"
  using multiply_is_product_mod_2_32 [of 3432918353 4294967295]
  by (simp add: ToInt32_def ToUint32_def w32_def)

section \<open>Seeds outside the 32-bit range\<close>

lemma w32_ToInt32: "w32 (ToInt32 x) = w32 x"
  by (simp add: ToInt32_def w32_sint)

lemma ToInt32_idem: "ToInt32 (ToInt32 x) = ToInt32 x"
  by (simp add: ToInt32_def w32_sint)

lemma ToInt32_mod: "ToInt32 (s mod 2 ^ 32) = ToInt32 s"
proof -
  have "w32 (s mod 2 ^ 32) = w32 s" by (simp add: w32_eq_iff)
  then show ?thesis by (simp add: ToInt32_def)
qed

lemma js_xor_low: "js_xor (ToInt32 a) b = js_xor a b"
  by (simp add: js_xor_def w32_ToInt32)

lemma js_xor_low2: "js_xor a (ToInt32 b) = js_xor a b"
  by (simp add: js_xor_def w32_ToInt32)

lemma js_and_low: "js_and (ToInt32 a) b = js_and a b"
  by (simp add: js_and_def w32_ToInt32)

lemma js_shr_low: "js_shr (ToInt32 a) n = js_shr a n"
  by (simp add: js_shr_def w32_ToInt32)

lemma js_shl_low: "js_shl (ToInt32 a) n = js_shl a n"
  by (simp add: js_shl_def w32_ToInt32)

lemma multiply_low: "multiply (ToInt32 a) b = multiply a b"
  by (simp add: multiply_def js_and_low js_shr_low)

lemma multiply_cong_low: "w32 a = w32 a' \<Longrightarrow> multiply a b = multiply a' b"
  by (simp add: multiply_def js_and_def js_shr_def)

subsection \<open>hash32 reads only the low 32 bits of the seed\<close>

lemma block32_low: "block32 b i (ToInt32 h) = block32 b i h"
  unfolding block32_def js_xor_low ..

lemma loop32_Suc_low: "loop32 b (Suc n) (ToInt32 h) = loop32 b (Suc n) h"
  by (induction n) (simp_all add: block32_low)

lemma loop32_low: "ToInt32 (loop32 b n (ToInt32 h)) = ToInt32 (loop32 b n h)"
  by (cases n) (simp_all only: loop32.simps(1) ToInt32_idem loop32_Suc_low)

lemma tail32_low: "ToInt32 (tail32 b t r (ToInt32 h)) = ToInt32 (tail32 b t r h)"
  unfolding tail32_def Let_def js_xor_low by (simp add: ToInt32_idem)

lemma compute32_via_low:
  "compute32 b s =
     js_shr (fmix (js_xor (ToInt32 (tail32 b (js_shr (int (length b)) 2 * 4)
        (js_and (int (length b)) 3) (loop32 b (nat (js_shr (int (length b)) 2)) s)))
        (int (length b)))) 0"
  unfolding compute32_def Let_def js_xor_low ..

lemma compute32_low: "compute32 b (ToInt32 s) = compute32 b s"
proof -
  have "ToInt32 (tail32 b t r (loop32 b n (ToInt32 s))) = ToInt32 (tail32 b t r (loop32 b n s))"
    for t r n
    using tail32_low [of b t r "loop32 b n (ToInt32 s)"] tail32_low [of b t r "loop32 b n s"]
    by (simp only: loop32_low)
  then show ?thesis by (simp only: compute32_via_low)
qed

lemma compute32_mod: "compute32 b (s mod 2 ^ 32) = compute32 b s"
  using compute32_low [of b "s mod 2 ^ 32"] compute32_low [of b s]
  by (simp only: ToInt32_mod)


subsection \<open>hash128x64 reads only the low 32 bits of the seed\<close>

lemma low64_idem: "low64 (low64 a) = low64 a"
  by (simp add: low64_def ToInt32_idem)

lemma low64_pair: "low64 (a, b) = (ToInt32 a, ToInt32 b)"
  by (simp add: low64_def)

lemma xor64_low: "xor64 (low64 a) b = xor64 a b"
  by (simp add: xor64_def low64_def js_xor_low)

lemma add64_low: "add64 (low64 a) b = add64 a b"
  unfolding add64_def low64_def fst_conv snd_conv js_shr_low js_and_low ..

lemma xor64_is_low: "low64 (xor64 a b) = xor64 a b"
  by (simp add: xor64_def low64_def ToInt32_def js_xor_def w32_sint)

lemma add64_low2: "add64 a (low64 b) = add64 a b"
  unfolding add64_def low64_def fst_conv snd_conv js_shr_low js_and_low ..

lemma block128x64_low: "block128x64 b i (low64 h1, low64 h2) = block128x64 b i (h1, h2)"
  unfolding block128x64_def Let_def fst_conv snd_conv xor64_low add64_low2 ..

lemma final128x64_low: "final128x64 len (low64 h1, low64 h2) = final128x64 len (h1, h2)"
  unfolding final128x64_def Let_def fst_conv snd_conv xor64_low ..

lemma lane64_low:
  "low64 (if c then xor64 (low64 h) k else low64 h) = low64 (if c then xor64 h k else h)"
  by (simp add: xor64_low low64_idem)

lemma tail128x64_low:
  "low64 (fst (tail128x64 b t r (low64 h1, low64 h2))) = low64 (fst (tail128x64 b t r (h1, h2)))"
  "low64 (snd (tail128x64 b t r (low64 h1, low64 h2))) = low64 (snd (tail128x64 b t r (h1, h2)))"
  unfolding tail128x64_def Let_def fst_conv snd_conv by (rule lane64_low)+

lemma final_tail128x64_low:
  "final128x64 len (tail128x64 b t r (low64 h1, low64 h2)) =
   final128x64 len (tail128x64 b t r (h1, h2))"
proof -
  have *: "final128x64 len x = final128x64 len (low64 (fst x), low64 (snd x))" for x
    using final128x64_low [of len "fst x" "snd x"] by simp
  show ?thesis
    by (subst *, subst (2) *) (simp only: tail128x64_low)
qed

lemma loop128x64_Suc_low:
  "loop128x64 b (Suc n) (low64 h1, low64 h2) = loop128x64 b (Suc n) (h1, h2)"
  by (induction n) (simp_all add: block128x64_low)

lemma lanes128x64_low: "lanes128x64 b (ToInt32 s) = lanes128x64 b s"
proof -
  have l: "low64 (0, s) = (0, ToInt32 s)"
    by (simp add: low64_def ToInt32_def w32_def)
  have l': "low64 (0, ToInt32 s) = (0, ToInt32 s)"
    by (simp add: low64_def ToInt32_def w32_def w32_sint)
  have "final128x64 len (tail128x64 b t r (loop128x64 b n ((0, ToInt32 s), (0, ToInt32 s)))) =
        final128x64 len (tail128x64 b t r (loop128x64 b n ((0, s), (0, s))))" for len t r n
  proof (cases n)
    case 0
    show ?thesis
      using final_tail128x64_low [of len b t r "(0, s)" "(0, s)"]
      by (simp add: 0 l)
  next
    case (Suc m)
    show ?thesis
      using loop128x64_Suc_low [of b m "(0, s)" "(0, s)"]
      by (simp only: Suc l)
  qed
  then show ?thesis
    unfolding lanes128x64_def Let_def by simp
qed

lemma compute128x64_mod: "compute128x64 b (s mod 2 ^ 32) = compute128x64 b s"
  using lanes128x64_low [of b "s mod 2 ^ 32"] lanes128x64_low [of b s]
  by (simp only: compute128x64_def ToInt32_mod)


subsection \<open>hash128 adds the seed before it truncates it\<close>

lemma rotl_bounds: "- (2 ^ 31) \<le> rotl x n \<and> rotl x n < 2 ^ 31"
  using sint32_bounds [of "w32 (js_shl x n) OR w32 (js_shr x (32 - n))"]
  by (simp add: rotl_def js_or_def)

lemma ToInt32_bounds: "- (2 ^ 31) \<le> ToInt32 x \<and> ToInt32 x < 2 ^ 31"
  using sint32_bounds [of "w32 x"] by (simp add: ToInt32_def)

lemma mix_low:
  assumes "\<bar>h\<bar> \<le> 2 ^ 53 - 2 ^ 31"
  shows "multiply (js_add (rotl x n) h) 5 = multiply (js_add (rotl x n) (ToInt32 h)) 5"
proof -
  let ?r = "rotl x n"
  have r: "- (2 ^ 31) \<le> ?r" "?r < 2 ^ 31" using rotl_bounds [of x n] by simp_all
  have t: "- (2 ^ 31) \<le> ToInt32 h" "ToInt32 h < 2 ^ 31" using ToInt32_bounds [of h] by simp_all
  have "\<bar>?r + h\<bar> \<le> 2 ^ 53" using r assms by (simp add: abs_le_iff)
  then have 1: "js_add ?r h = ?r + h" by (rule js_add_exact)
  have "\<bar>?r + ToInt32 h\<bar> \<le> 2 ^ 53" using r t by (simp add: abs_le_iff)
  then have 2: "js_add ?r (ToInt32 h) = ?r + ToInt32 h" by (rule js_add_exact)
  have "w32 (?r + h) = w32 (?r + ToInt32 h)"
    by (simp add: w32_def ToInt32_def)
  then show ?thesis
    unfolding 1 2 by (rule multiply_cong_low)
qed

lemma block128_low:
  assumes "\<bar>h2\<bar> \<le> 2 ^ 53 - 2 ^ 31" "\<bar>h3\<bar> \<le> 2 ^ 53 - 2 ^ 31" "\<bar>h4\<bar> \<le> 2 ^ 53 - 2 ^ 31"
  shows "block128 b i (h1, h2, h3, h4) =
         block128 b i (ToInt32 h1, ToInt32 h2, ToInt32 h3, ToInt32 h4)"
  unfolding block128_def Let_def fst_conv snd_conv js_xor_low
    mix_low [OF assms(1)] mix_low [OF assms(2)] mix_low [OF assms(3)] ..

lemma block128_seed:
  assumes "\<bar>s\<bar> \<le> 2 ^ 53 - 2 ^ 31"
  shows "block128 b i (s mod 2 ^ 32, s mod 2 ^ 32, s mod 2 ^ 32, s mod 2 ^ 32) =
         block128 b i (s, s, s, s)"
proof -
  have "\<bar>s mod 2 ^ 32\<bar> \<le> 2 ^ 53 - 2 ^ 31"
  proof -
    have "0 \<le> s mod 2 ^ 32" "s mod 2 ^ 32 < 2 ^ 32" by simp_all
    then show ?thesis by (simp add: abs_le_iff)
  qed
  then show ?thesis
    using block128_low [of "s mod 2 ^ 32" "s mod 2 ^ 32" "s mod 2 ^ 32" b i "s mod 2 ^ 32"]
      block128_low [OF assms assms assms, of b i s]
    by (simp only: ToInt32_mod)
qed

lemma loop128_Suc_seed:
  assumes "\<bar>s\<bar> \<le> 2 ^ 53 - 2 ^ 31"
  shows "loop128 b (Suc n) (s mod 2 ^ 32, s mod 2 ^ 32, s mod 2 ^ 32, s mod 2 ^ 32) =
         loop128 b (Suc n) (s, s, s, s)"
  by (induction n) (simp_all only: loop128.simps block128_seed [OF assms])

lemma lane32_low:
  "js_xor (if c then js_xor (ToInt32 h) k else ToInt32 h) len =
   js_xor (if c then js_xor h k else h) len"
  by (simp add: js_xor_low)

lemma xor_len_tail128_low:
  "xor_len128 len (tail128 b t r (ToInt32 h1, ToInt32 h2, ToInt32 h3, ToInt32 h4)) =
   xor_len128 len (tail128 b t r (h1, h2, h3, h4))"
  unfolding tail128_def xor_len128.simps Let_def fst_conv snd_conv lane32_low ..

lemma final_tail128_seed:
  "final128 len (tail128 b t r (s mod 2 ^ 32, s mod 2 ^ 32, s mod 2 ^ 32, s mod 2 ^ 32)) =
   final128 len (tail128 b t r (s, s, s, s))"
  using xor_len_tail128_low [of len b t r "s mod 2 ^ 32" "s mod 2 ^ 32" "s mod 2 ^ 32" "s mod 2 ^ 32"]
    xor_len_tail128_low [of len b t r s s s s]
  by (simp only: final128_def ToInt32_mod)

lemma lanes128_mod:
  assumes "\<bar>s\<bar> \<le> 2 ^ 53 - 2 ^ 31 \<or> length b < 16"
  shows "lanes128 b (s mod 2 ^ 32) = lanes128 b s"
proof -
  let ?n = "nat (js_shr (int (length b)) 4)"
  have "final128 len (tail128 b t r (loop128 b ?n (s mod 2 ^ 32, s mod 2 ^ 32, s mod 2 ^ 32, s mod 2 ^ 32))) =
        final128 len (tail128 b t r (loop128 b ?n (s, s, s, s)))" for len t r
  proof (cases ?n)
    case 0
    then show ?thesis by (simp only: loop128.simps final_tail128_seed)
  next
    case (Suc m)
    have "\<not> length b < 16"
    proof
      assume "length b < 16"
      then have "js_shr (int (length b)) 4 = 0"
        by (simp add: js_shr_eq)
      with Suc show False by simp
    qed
    with assms have "\<bar>s\<bar> \<le> 2 ^ 53 - 2 ^ 31" by simp
    then show ?thesis by (simp only: Suc loop128_Suc_seed)
  qed
  then show ?thesis
    unfolding lanes128_def Let_def by simp
qed

lemma compute128_mod:
  "\<bar>s\<bar> \<le> 2 ^ 53 - 2 ^ 31 \<or> length b < 16 \<Longrightarrow> compute128 b (s mod 2 ^ 32) = compute128 b s"
  by (simp only: compute128_def lanes128_mod)

lemma hash128_total: "\<exists>d. hash128 input options = Inr d"
proof -
  let ?h = "compute128 (toBytes input) (seed_of options)"
  have shape: "length ?h = 32" "set ?h \<subseteq> hex_chars"
    using compute128_shape by blast+
  then have "?h \<noteq> []" by auto
  with shape obtain v where "hexToBigInt ?h = Inr v"
    using hexToBigInt_Inr by blast
  then show ?thesis
    by (simp add: hash128_def format128_def Let_def)
qed

lemma hash128x64_total: "\<exists>d. hash128x64 input options = Inr d"
proof -
  let ?h = "compute128x64 (toBytes input) (seed_of options)"
  have shape: "length ?h = 32" "set ?h \<subseteq> hex_chars"
    using compute128x64_shape by blast+
  then have "?h \<noteq> []" by auto
  with shape obtain v where "hexToBigInt ?h = Inr v"
    using hexToBigInt_Inr by blast
  then show ?thesis
    by (simp add: hash128x64_def format128_def Let_def)
qed

lemma hash128_seed_2_53:
  "hash128 (Str ''0123456789abcdef'') (Some \<lparr>opt_seed = Some (2 ^ 53), opt_output = None\<rparr>) =
     Inr (HexString ''842a1bf2dd0e3cdf7e4cdc94b3f8a12d'')"
  by (simp add: js_eval hex_eval opts_eval eval128 ulp_def compute_bitlen cong: let_weak_cong)

lemma hash128_seed_2_53_mod:
  "hash128 (Str ''0123456789abcdef'')
     (Some \<lparr>opt_seed = Some (2 ^ 53 mod 2 ^ 32), opt_output = None\<rparr>) =
     Inr (HexString ''fb7d440936aed30a48ad1d9b572b3bfd'')"
  by (simp add: js_eval hex_eval opts_eval eval128 cong: let_weak_cong)

text \<open>
  C8, as stated: for every engine and every integer seed the digest is the digest of
  the seed's low 32 bits. It fails for hash128 at the seed \<open>2 ^ 53\<close> (a double, low 32
  bits 0) on the 16-byte input \<^verbatim>\<open>0123456789abcdef\<close>: the block loop adds the raw seed
  in \<^verbatim>\<open>h1 += h2\<close>, the sum is rounded to a double, and the digest is not the one for
  seed 0.
\<close>

theorem hash128_seed_2_53_not_truncated:
  "hash128 (Str ''0123456789abcdef'') (Some \<lparr>opt_seed = Some (2 ^ 53), opt_output = None\<rparr>) \<noteq>
   hash128 (Str ''0123456789abcdef'')
     (Some \<lparr>opt_seed = Some (2 ^ 53 mod 2 ^ 32), opt_output = None\<rparr>)"
  by (simp only: hash128_seed_2_53 hash128_seed_2_53_mod) simp

text \<open>
  C8, amended: hash32 and hash128x64 return, for every input and every integer seed
  \<open>s\<close>, the digest of \<open>s mod 2 ^ 32\<close>. hash128 does so when \<open>\<bar>s\<bar> \<le> 2 ^ 53 - 2 ^ 31\<close>,
  or when the input is shorter than 16 bytes (no block iteration runs). No call fails,
  whatever the seed.
\<close>

theorem seed_truncated_to_32_bits:
  "hash32 input (Some s) = hash32 input (Some (s mod 2 ^ 32)) \<and>
   hash128x64 input (Some \<lparr>opt_seed = Some s, opt_output = out\<rparr>) =
     hash128x64 input (Some \<lparr>opt_seed = Some (s mod 2 ^ 32), opt_output = out\<rparr>) \<and>
   (\<bar>s\<bar> \<le> 2 ^ 53 - 2 ^ 31 \<or> length (toBytes input) < 16 \<longrightarrow>
     hash128 input (Some \<lparr>opt_seed = Some s, opt_output = out\<rparr>) =
       hash128 input (Some \<lparr>opt_seed = Some (s mod 2 ^ 32), opt_output = out\<rparr>)) \<and>
   (\<exists>d. hash128 input (Some \<lparr>opt_seed = Some s, opt_output = out\<rparr>) = Inr d) \<and>
   (\<exists>d. hash128x64 input (Some \<lparr>opt_seed = Some s, opt_output = out\<rparr>) = Inr d)"
  using compute32_mod [of "toBytes input" s] compute128x64_mod [of "toBytes input" s]
    compute128_mod [of s "toBytes input"]
    hash128_total [of input "Some \<lparr>opt_seed = Some s, opt_output = out\<rparr>"]
    hash128x64_total [of input "Some \<lparr>opt_seed = Some s, opt_output = out\<rparr>"]
  by (simp add: hash32_def hash128_def hash128x64_def seed_of_def output_of_def)

theorem seed_truncated_to_32_bits_witness:
  "\<bar>4294967297 :: int\<bar> \<le> 2 ^ 53 - 2 ^ 31 \<and>
   hash32 (Str ''0123456789abcdef'') (Some 4294967297) =
     hash32 (Str ''0123456789abcdef'') (Some 1) \<and>
   hash128x64 (Str ''0123456789abcdef'') (Some \<lparr>opt_seed = Some 4294967297, opt_output = None\<rparr>) =
     hash128x64 (Str ''0123456789abcdef'') (Some \<lparr>opt_seed = Some 1, opt_output = None\<rparr>) \<and>
   hash128 (Str ''0123456789abcdef'') (Some \<lparr>opt_seed = Some 4294967297, opt_output = None\<rparr>) =
     hash128 (Str ''0123456789abcdef'') (Some \<lparr>opt_seed = Some 1, opt_output = None\<rparr>)"
  using seed_truncated_to_32_bits [of "Str ''0123456789abcdef''" 4294967297 None]
  by simp

section \<open>64-bit multiplication on 16-bit limbs\<close>

lemma w32_js_or: "w32 (js_or a b) = w32 a OR w32 b"
  by (simp add: js_or_def w32_sint)

lemma w32_js_shl16: "w32 (js_shl a 16) = push_bit 16 (w32 a)"
  by (simp add: js_shl_def w32_sint)

lemma w32_low16: "0 \<le> x \<Longrightarrow> x < 2 ^ 16 \<Longrightarrow> take_bit 16 (w32 x) = w32 x"
proof (rule word_uint_eqI)
  assume x: "0 \<le> x" "x < 2 ^ 16"
  then have "x < 2 ^ 32" by simp
  with x have "x mod 2 ^ 32 = x" "x mod 2 ^ 16 = x" by simp_all
  then show "uint (take_bit 16 (w32 x)) = uint (w32 x)"
    by (simp only: uint_take_bit16 uint_w32)
qed

lemma pack16:
  assumes "0 \<le> h" "h < 2 ^ 16" "0 \<le> l" "l < 2 ^ 16"
  shows "ToUint32 (js_or (js_shl h 16) l) = h * 2 ^ 16 + l"
proof -
  have disj: "push_bit 16 (w32 h) AND take_bit 16 (w32 l) = 0"
    by (simp add: bit_eq_iff bit_simps)
  have "w32 (js_or (js_shl h 16) l) = push_bit 16 (w32 h) OR take_bit 16 (w32 l)"
    using assms by (simp add: w32_js_or w32_js_shl16 w32_low16)
  also have "\<dots> = push_bit 16 (w32 h) + take_bit 16 (w32 l)"
    using disj by (simp add: disjunctive_add_eq_or)
  also have "\<dots> = w32 (h * 2 ^ 16 + l)"
    using assms by (simp add: w32_low16) (simp add: w32_def push_bit_eq_mult)
  finally have "ToUint32 (js_or (js_shl h 16) l) = (h * 2 ^ 16 + l) mod 2 ^ 32"
    by (simp add: ToUint32_def uint_w32)
  moreover have "0 \<le> h * 2 ^ 16 + l" using assms by simp
  moreover have "h * 2 ^ 16 + l < 2 ^ 32" using assms by simp
  ultimately show ?thesis by simp
qed

lemma ToUint32_split: "ToUint32 x = (x mod 2 ^ 32) div 2 ^ 16 * 2 ^ 16 + x mod 2 ^ 16"
  using split16 [of x] by (simp add: ToUint32_def uint_w32)

lemma limb_product:
  fixes x y :: int
  assumes "0 \<le> x" "x < 2 ^ 16" "0 \<le> y" "y < 2 ^ 16"
  shows "0 \<le> x * y \<and> x * y \<le> 4294836225"
proof -
  have "x * y \<le> 65535 * 65535"
    using assms by (intro mult_mono) simp_all
  with assms show ?thesis by simp
qed

lemma carry_bounds:
  assumes "0 \<le> s" "s < 2 ^ 32"
  shows "js_shr s 16 = s div 2 ^ 16" "js_and s 0xffff = s mod 2 ^ 16"
    "0 \<le> s div 2 ^ 16" "s div 2 ^ 16 \<le> 65535" "0 \<le> s mod 2 ^ 16" "s mod 2 ^ 16 \<le> 65535"
  using assms by (simp_all add: js_shr16 js_and_ffff div_le_mono pos_imp_zdiv_nonneg_iff) 


lemma limb_bounds:
  "0 \<le> js_shr x 16" "js_shr x 16 < 2 ^ 16" "0 \<le> js_and x 0xffff" "js_and x 0xffff < 2 ^ 16"
proof -
  have "0 \<le> x mod 2 ^ 32" "x mod 2 ^ 32 < 2 ^ 32" by simp_all
  then have "0 \<le> (x mod 2 ^ 32) div 2 ^ 16" "(x mod 2 ^ 32) div 2 ^ 16 \<le> 65535"
    by (rule carry_bounds(3), rule carry_bounds(4))
  then show "0 \<le> js_shr x 16" "js_shr x 16 < 2 ^ 16"
    by (simp_all add: js_shr16)
  show "0 \<le> js_and x 0xffff" "js_and x 0xffff < 2 ^ 16"
    by (simp_all add: js_and_ffff)
qed

lemma small_sum_exact:
  assumes "0 \<le> x" "x \<le> 2 ^ 40" "0 \<le> y" "y \<le> 2 ^ 40"
  shows "js_add x y = x + y"
  using assms by (intro js_add_exact) (simp add: abs_le_iff)

lemma limb_mul_exact:
  fixes x y :: int
  assumes "0 \<le> x" "x < 2 ^ 16" "0 \<le> y" "y < 2 ^ 16"
  shows "js_mul x y = x * y"
  using limb_product [OF assms] by (intro js_mul_exact) (simp add: abs_le_iff)

text \<open>
  C5. For all 64-bit values \<open>a\<close> and \<open>b\<close> given as pairs \<^verbatim>\<open>[hi32, lo32]\<close>, the value of
  \<^verbatim>\<open>multiply64(a, b)\<close> is the product of the values of \<open>a\<close> and \<open>b\<close> modulo \<open>2 ^ 64\<close>:
  the 16-bit-limb schoolbook multiplication with its carries is exact in double
  arithmetic.
\<close>

theorem multiply64_is_product_mod_2_64:
  "val64 (multiply64 a b) = (val64 a * val64 b) mod 2 ^ 64"
proof -
  define a0 where "a0 = js_shr (fst a) 16"
  define a1 where "a1 = js_and (fst a) 0xffff"
  define a2 where "a2 = js_shr (snd a) 16"
  define a3 where "a3 = js_and (snd a) 0xffff"
  define b0 where "b0 = js_shr (fst b) 16"
  define b1 where "b1 = js_and (fst b) 0xffff"
  define b2 where "b2 = js_shr (snd b) 16"
  define b3 where "b3 = js_and (snd b) 0xffff"
  note limbs = a0_def a1_def a2_def a3_def b0_def b1_def b2_def b3_def
  have A: "0 \<le> a0" "a0 < 2 ^ 16" "0 \<le> a1" "a1 < 2 ^ 16"
    "0 \<le> a2" "a2 < 2 ^ 16" "0 \<le> a3" "a3 < 2 ^ 16"
    unfolding limbs by (rule limb_bounds)+
  have B: "0 \<le> b0" "b0 < 2 ^ 16" "0 \<le> b1" "b1 < 2 ^ 16"
    "0 \<le> b2" "b2 < 2 ^ 16" "0 \<le> b3" "b3 < 2 ^ 16"
    unfolding limbs by (rule limb_bounds)+
  define p33 where "p33 = a3 * b3"
  define p23 where "p23 = a2 * b3"
  define p32 where "p32 = a3 * b2"
  define p13 where "p13 = a1 * b3"
  define p22 where "p22 = a2 * b2"
  define p31 where "p31 = a3 * b1"
  define p03 where "p03 = a0 * b3"
  define p12 where "p12 = a1 * b2"
  define p21 where "p21 = a2 * b1"
  define p30 where "p30 = a3 * b0"
  note prods = p33_def p23_def p32_def p13_def p22_def p31_def p03_def p12_def p21_def p30_def
  have M: "js_mul a3 b3 = p33" "js_mul a2 b3 = p23" "js_mul a3 b2 = p32" "js_mul a1 b3 = p13"
    "js_mul a2 b2 = p22" "js_mul a3 b1 = p31" "js_mul a0 b3 = p03" "js_mul a1 b2 = p12"
    "js_mul a2 b1 = p21" "js_mul a3 b0 = p30"
    unfolding prods using A B by (simp_all only: limb_mul_exact)
  have P: "0 \<le> p33 \<and> p33 \<le> 4294836225" "0 \<le> p23 \<and> p23 \<le> 4294836225"
    "0 \<le> p32 \<and> p32 \<le> 4294836225" "0 \<le> p13 \<and> p13 \<le> 4294836225"
    "0 \<le> p22 \<and> p22 \<le> 4294836225" "0 \<le> p31 \<and> p31 \<le> 4294836225"
    "0 \<le> p03 \<and> p03 \<le> 4294836225" "0 \<le> p12 \<and> p12 \<le> 4294836225"
    "0 \<le> p21 \<and> p21 \<le> 4294836225" "0 \<le> p30 \<and> p30 \<le> 4294836225"
    unfolding prods using A B by (simp_all only: limb_product)

  \<comment> \<open>\<^verbatim>\<open>c3 += a3 * b3; c2 += c3 >>> 16; c3 &= 0xffff\<close>\<close>
  define k3 where "k3 = p33 div 2 ^ 16"
  define c3 where "c3 = p33 mod 2 ^ 16"
  have s3: "0 \<le> p33" "p33 < 2 ^ 32" using P(1) by simp_all
  have e3: "js_add 0 p33 = p33" "js_shr p33 16 = k3" "js_and p33 0xffff = c3" "js_add 0 k3 = k3"
    and r3: "0 \<le> k3" "k3 \<le> 65535" "0 \<le> c3" "c3 \<le> 65535"
    and d3: "p33 = 2 ^ 16 * k3 + c3"
    unfolding k3_def c3_def using s3 carry_bounds [OF s3]
    by (simp_all add: small_sum_exact)

  \<comment> \<open>\<^verbatim>\<open>c2 += a2 * b3; c1 += c2 >>> 16; c2 &= 0xffff\<close>\<close>
  define s2 where "s2 = k3 + p23"
  define k2a where "k2a = s2 div 2 ^ 16"
  define m2 where "m2 = s2 mod 2 ^ 16"
  have s2: "0 \<le> s2" "s2 < 2 ^ 32" unfolding s2_def using r3 P(2) by simp_all
  have e2a: "js_add k3 p23 = s2" "js_shr s2 16 = k2a" "js_and s2 0xffff = m2" "js_add 0 k2a = k2a"
    and r2a: "0 \<le> k2a" "k2a \<le> 65535" "0 \<le> m2" "m2 \<le> 65535"
    and d2a: "s2 = 2 ^ 16 * k2a + m2"
    unfolding k2a_def m2_def using s2 carry_bounds [OF s2] r3 P(2)
    by (simp_all add: small_sum_exact s2_def)

  \<comment> \<open>\<^verbatim>\<open>c2 += a3 * b2; c1 += c2 >>> 16; c2 &= 0xffff\<close>\<close>
  define t2 where "t2 = m2 + p32"
  define k2b where "k2b = t2 div 2 ^ 16"
  define c2 where "c2 = t2 mod 2 ^ 16"
  define u1 where "u1 = k2a + k2b"
  have t2: "0 \<le> t2" "t2 < 2 ^ 32" unfolding t2_def using r2a P(3) by simp_all
  have e2b: "js_add m2 p32 = t2" "js_shr t2 16 = k2b" "js_and t2 0xffff = c2" "js_add k2a k2b = u1"
    and r2b: "0 \<le> k2b" "k2b \<le> 65535" "0 \<le> c2" "c2 \<le> 65535"
    and d2b: "t2 = 2 ^ 16 * k2b + c2"
    unfolding k2b_def c2_def u1_def using t2 carry_bounds [OF t2] r2a P(3)
    by (simp_all add: small_sum_exact t2_def)

  \<comment> \<open>\<^verbatim>\<open>c1 += a1 * b3; c0 += c1 >>> 16; c1 &= 0xffff\<close>\<close>
  define s1 where "s1 = u1 + p13"
  define k1a where "k1a = s1 div 2 ^ 16"
  define m1 where "m1 = s1 mod 2 ^ 16"
  have u1: "0 \<le> u1" "u1 \<le> 131070" unfolding u1_def using r2a r2b by simp_all
  have s1: "0 \<le> s1" "s1 < 2 ^ 32" unfolding s1_def using u1 P(4) by simp_all
  have e1a: "js_add u1 p13 = s1" "js_shr s1 16 = k1a" "js_and s1 0xffff = m1" "js_add 0 k1a = k1a"
    and r1a: "0 \<le> k1a" "k1a \<le> 65535" "0 \<le> m1" "m1 \<le> 65535"
    and d1a: "s1 = 2 ^ 16 * k1a + m1"
    unfolding k1a_def m1_def using s1 carry_bounds [OF s1] u1 P(4)
    by (simp_all add: small_sum_exact s1_def)

  \<comment> \<open>\<^verbatim>\<open>c1 += a2 * b2; c0 += c1 >>> 16; c1 &= 0xffff\<close>\<close>
  define t1 where "t1 = m1 + p22"
  define k1b where "k1b = t1 div 2 ^ 16"
  define n1 where "n1 = t1 mod 2 ^ 16"
  define u0 where "u0 = k1a + k1b"
  have t1: "0 \<le> t1" "t1 < 2 ^ 32" unfolding t1_def using r1a P(5) by simp_all
  have e1b: "js_add m1 p22 = t1" "js_shr t1 16 = k1b" "js_and t1 0xffff = n1" "js_add k1a k1b = u0"
    and r1b: "0 \<le> k1b" "k1b \<le> 65535" "0 \<le> n1" "n1 \<le> 65535"
    and d1b: "t1 = 2 ^ 16 * k1b + n1"
    unfolding k1b_def n1_def u0_def using t1 carry_bounds [OF t1] r1a P(5)
    by (simp_all add: small_sum_exact t1_def)

  \<comment> \<open>\<^verbatim>\<open>c1 += a3 * b1; c0 += c1 >>> 16; c1 &= 0xffff\<close>\<close>
  define v1 where "v1 = n1 + p31"
  define k1c where "k1c = v1 div 2 ^ 16"
  define c1 where "c1 = v1 mod 2 ^ 16"
  define w0 where "w0 = u0 + k1c"
  have v1: "0 \<le> v1" "v1 < 2 ^ 32" unfolding v1_def using r1b P(6) by simp_all
  have u0: "0 \<le> u0" "u0 \<le> 131070" unfolding u0_def using r1a r1b by simp_all
  have e1c: "js_add n1 p31 = v1" "js_shr v1 16 = k1c" "js_and v1 0xffff = c1" "js_add u0 k1c = w0"
    and r1c: "0 \<le> k1c" "k1c \<le> 65535" "0 \<le> c1" "c1 \<le> 65535"
    and d1c: "v1 = 2 ^ 16 * k1c + c1"
    unfolding k1c_def c1_def w0_def using v1 carry_bounds [OF v1] r1b P(6) u0
    by (simp_all add: small_sum_exact v1_def)

  \<comment> \<open>\<^verbatim>\<open>c0 += a0 * b3 + a1 * b2 + a2 * b1 + a3 * b0; c0 &= 0xffff\<close>\<close>
  define x1 where "x1 = p03 + p12"
  define x2 where "x2 = x1 + p21"
  define x3 where "x3 = x2 + p30"
  define s0 where "s0 = w0 + x3"
  define c0 where "c0 = s0 mod 2 ^ 16"
  have w0: "0 \<le> w0" "w0 \<le> 196605" unfolding w0_def using u0 r1c by simp_all
  have x: "0 \<le> x1" "x1 \<le> 2 ^ 34" "0 \<le> x2" "x2 \<le> 2 ^ 34" "0 \<le> x3" "x3 \<le> 2 ^ 35"
    unfolding x1_def x2_def x3_def using P(7-10) by simp_all
  have e0: "js_add p03 p12 = x1" "js_add x1 p21 = x2" "js_add x2 p30 = x3" "js_add w0 x3 = s0"
    "js_and s0 0xffff = c0"
    and r0: "0 \<le> c0" "c0 \<le> 65535"
    unfolding c0_def s0_def using x w0 P(7-10)
    by (simp_all add: small_sum_exact js_and_ffff x1_def x2_def x3_def)

  have result: "multiply64 a b = (js_or (js_shl c0 16) c1, js_or (js_shl c2 16) c3)"
    unfolding multiply64_def Let_def limbs [symmetric] M e3 e2a e2b e1a e1b e1c e0 ..

  have res_val: "val64 (multiply64 a b) = (c0 * 2 ^ 16 + c1) * 2 ^ 32 + (c2 * 2 ^ 16 + c3)"
    unfolding result val64_def fst_conv snd_conv
    using r0 r1c r2b r3 by (simp add: pack16)

  have va: "val64 a = (a0 * 2 ^ 16 + a1) * 2 ^ 32 + (a2 * 2 ^ 16 + a3)"
    unfolding val64_def limbs js_shr16 js_and_ffff
    by (simp only: ToUint32_split)
  have vb: "val64 b = (b0 * 2 ^ 16 + b1) * 2 ^ 32 + (b2 * 2 ^ 16 + b3)"
    unfolding val64_def limbs js_shr16 js_and_ffff
    by (simp only: ToUint32_split)

  define R where "R = (c0 * 2 ^ 16 + c1) * 2 ^ 32 + (c2 * 2 ^ 16 + c3)"
  define H where "H = a0 * b2 + a1 * b1 + a2 * b0 + 2 ^ 16 * (a0 * b1 + a1 * b0) + 2 ^ 32 * (a0 * b0)"
  define q0 where "q0 = s0 div 2 ^ 16"
  have d0: "s0 = 2 ^ 16 * q0 + c0"
    unfolding q0_def c0_def by simp
  have expand: "val64 a * val64 b =
      p33 + 2 ^ 16 * (p23 + p32) + 2 ^ 32 * (p13 + p22 + p31)
        + 2 ^ 48 * (p03 + p12 + p21 + p30) + 2 ^ 64 * H"
    unfolding va vb prods H_def by (simp add: algebra_simps)
  have prod: "val64 a * val64 b = R + 2 ^ 64 * (q0 + H)"
    unfolding expand R_def
    using d3 d2a d2b d1a d1b d1c d0
    unfolding s2_def t2_def s1_def u1_def t1_def v1_def s0_def w0_def u0_def x3_def x2_def x1_def
    by simp
  have range: "0 \<le> R" "R < 2 ^ 64"
    unfolding R_def using r0 r1c r2b r3 by simp_all
  have "(val64 a * val64 b) mod 2 ^ 64 = R mod 2 ^ 64"
    unfolding prod by (rule mod_mult_self2)
  also have "\<dots> = R"
    using range by (rule mod_pos_pos_trivial)
  finally have "(val64 a * val64 b) mod 2 ^ 64 = R" .
  then show ?thesis
    by (simp only: res_val R_def)
qed

end
